theory Spec2Isabelle
  imports Complex_Main
begin

section \<open>Geometry tutoring system: data model\<close>

text \<open>
  The model follows \<^verbatim>\<open>src/app.py\<close>. Python floats are modelled as real numbers and Python
  integers as \<^typ>\<open>int\<close>; dictionaries with string keys are partial maps from strings.
  Display-only text of a question (the fields \<^verbatim>\<open>problem\<close>, \<^verbatim>\<open>formula\<close>, \<^verbatim>\<open>hint\<close>,
  \<^verbatim>\<open>steps\<close>, and the narrative template that only feeds \<^verbatim>\<open>problem\<close>) is left out, and
  the tutor's reply is represented by the category handed to \<^verbatim>\<open>get_ai_response\<close>, from
  whose pool the message is drawn at random.
\<close>

datatype py_error = KeyError | TypeError | ValueError | BadRequest

record level_config =
  questions_required :: int
  pass_threshold :: real

definition LEVELS :: "string \<rightharpoonup> level_config" where
  "LEVELS =
     [''beginner'' \<mapsto> \<lparr>questions_required = 5, pass_threshold = 0.6\<rparr>,
      ''intermediate'' \<mapsto> \<lparr>questions_required = 5, pass_threshold = 0.7\<rparr>,
      ''expert'' \<mapsto> \<lparr>questions_required = 5, pass_threshold = 0.8\<rparr>]"

definition LEVEL_ORDER :: "string list" where
  "LEVEL_ORDER = [''beginner'', ''intermediate'', ''expert'']"

record question_result =
  qr_correct :: bool
  qr_user_answer :: real
  qr_correct_answer :: real

record level_data =
  unlocked :: bool
  attempts :: int
  correct :: int
  completed :: bool
  questions :: "question_result list"

record shape_progress =
  current_level :: string
  levels :: "string \<rightharpoonup> level_data"
  mastered :: bool

record history_entry =
  h_shape :: string
  h_level :: string
  h_correct :: bool

record progress_record =
  total_attempts :: int
  correct_answers :: int
  wrong_answers :: int
  shapes :: "string \<rightharpoonup> shape_progress"
  history :: "history_entry list"

record question =
  q_shape :: string
  q_level :: string
  given :: "(string \<times> real) list"
  correct_answer :: real
  user_answer :: "real option"

text \<open>
  The server-side session of one visitor. A key that is absent from the session is
  \<open>None\<close>; \<^verbatim>\<open>current_question\<close> is also \<open>None\<close> when the stored value is Python's
  \<^verbatim>\<open>None\<close> (both are falsy and \<^verbatim>\<open>session.get\<close> returns \<^verbatim>\<open>None\<close> for both).
\<close>

record session =
  student_id :: "string option"
  progress :: "progress_record option"
  current_question :: "question option"
  current_shape :: "string option"

section \<open>Question generator\<close>

text \<open>
  \<^verbatim>\<open>random.uniform(a, b)\<close> is \<^verbatim>\<open>a + (b - a) * random()\<close>; the value \<open>r\<close> of
  \<^verbatim>\<open>random()\<close>, which lies in the interval from 0 to 1, is an argument of the model.
\<close>

definition uniform :: "real \<Rightarrow> real \<Rightarrow> real \<Rightarrow> real" where
  "uniform a b r = a + (b - a) * r"

text \<open>Python's \<^verbatim>\<open>round(x, n)\<close>: to the nearest multiple of \<open>10^-n\<close>, ties to even.\<close>

definition round_half_even :: "real \<Rightarrow> int" where
  "round_half_even x =
     (let f = \<lfloor>x\<rfloor>; d = x - of_int f
      in if d < 1 / 2 then f
         else if 1 / 2 < d then f + 1
         else if even f then f else f + 1)"

definition py_round :: "real \<Rightarrow> nat \<Rightarrow> real" where
  "py_round x n = of_int (round_half_even (x * 10 ^ n)) / 10 ^ n"

text \<open>Python's \<^verbatim>\<open>int(x)\<close> on a float truncates towards zero.\<close>

definition py_int :: "real \<Rightarrow> int" where
  "py_int x = (if 0 \<le> x then \<lfloor>x\<rfloor> else \<lceil>x\<rceil>)"

text \<open>
  One generated parameter: \<^verbatim>\<open>round(random.uniform(lo, hi), decimal_places)\<close>, followed by
  \<^verbatim>\<open>int(...)\<close> when \<^verbatim>\<open>decimal_places == 0\<close>. The source writes this out for every
  parameter of every shape.
\<close>

definition draw :: "real \<Rightarrow> real \<Rightarrow> nat \<Rightarrow> real \<Rightarrow> real" where
  "draw lo hi decimal_places r =
     (let v = py_round (uniform lo hi r) decimal_places
      in if decimal_places = 0 then of_int (py_int v) else v)"

text \<open>The \<^verbatim>\<open>ranges\<close> and \<^verbatim>\<open>decimal_places\<close> chosen by the level; any other level name
  takes the last branch, as the source's \<^verbatim>\<open>else\<close> does.\<close>

definition level_ranges :: "string \<Rightarrow> real \<times> real \<times> nat" where
  "level_ranges level =
     (if level = ''beginner'' then (2, 10, 0)
      else if level = ''intermediate'' then (3, 15, 1)
      else (5, 25, 2))"

definition generate_question :: "string \<Rightarrow> string \<Rightarrow> real \<Rightarrow> real \<Rightarrow> question option" where
  "generate_question shape level r1 r2 =
     (case level_ranges level of (rmin, rmax, decimal_places) \<Rightarrow>
        if shape = ''square'' then
          (let side = draw rmin rmax decimal_places r1
           in Some \<lparr>q_shape = shape, q_level = level, given = [(''side'', side)],
                    correct_answer = side ^ 2, user_answer = None\<rparr>)
        else if shape = ''rectangle'' then
          (let length = draw rmin rmax decimal_places r1;
               width = draw rmin (rmax * 0.7) decimal_places r2;
               area = length * width
           in Some \<lparr>q_shape = shape, q_level = level,
                    given = [(''length'', length), (''width'', width)],
                    correct_answer = area, user_answer = None\<rparr>)
        else if shape = ''triangle'' then
          (let base = draw rmin rmax decimal_places r1;
               height = draw rmin (rmax * 0.8) decimal_places r2;
               area = (base * height) / 2
           in Some \<lparr>q_shape = shape, q_level = level,
                    given = [(''base'', base), (''height'', height)],
                    correct_answer = area, user_answer = None\<rparr>)
        else if shape = ''circle'' then
          (let radius = draw (rmin * 0.5) (rmax * 0.5) decimal_places r1;
               area = pi * (radius ^ 2)
           in Some \<lparr>q_shape = shape, q_level = level, given = [(''radius'', radius)],
                    correct_answer = area, user_answer = None\<rparr>)
        else None)"

text \<open>
  The closed-form area formulas as the specification words them, read off a question's
  named parameters.
\<close>

definition closed_form_area :: "string \<Rightarrow> (string \<rightharpoonup> real) \<Rightarrow> real option" where
  "closed_form_area shape g =
     (if shape = ''square'' then
        (case g ''side'' of Some s \<Rightarrow> Some (s * s) | None \<Rightarrow> None)
      else if shape = ''rectangle'' then
        (case (g ''length'', g ''width'') of (Some l, Some w) \<Rightarrow> Some (l * w) | _ \<Rightarrow> None)
      else if shape = ''triangle'' then
        (case (g ''base'', g ''height'') of (Some b, Some h) \<Rightarrow> Some (b * h / 2) | _ \<Rightarrow> None)
      else if shape = ''circle'' then
        (case g ''radius'' of Some r \<Rightarrow> Some (pi * (r * r)) | None \<Rightarrow> None)
      else None)"

definition valid_shapes :: "string set" where
  "valid_shapes = {''square'', ''rectangle'', ''triangle'', ''circle''}"

section \<open>Answer evaluation\<close>

definition answer_error :: "real \<Rightarrow> real \<Rightarrow> real" where
  "answer_error ua c = (if c \<noteq> 0 then \<bar>ua - c\<bar> / c else \<bar>ua - c\<bar>)"

definition is_correct :: "real \<Rightarrow> real \<Rightarrow> bool" where
  "is_correct ua c = (answer_error ua c \<le> 0.02)"

definition is_close :: "real \<Rightarrow> real \<Rightarrow> bool" where
  "is_close ua c = (answer_error ua c \<le> 0.10 \<and> \<not> is_correct ua c)"

text \<open>The outcome class, in the order of the handler's \<^verbatim>\<open>if\<close>/\<^verbatim>\<open>elif\<close> chain.\<close>

datatype outcome = Correct | Close | Wrong

definition classify :: "real \<Rightarrow> real \<Rightarrow> outcome" where
  "classify ua c = (if is_correct ua c then Correct else if is_close ua c then Close else Wrong)"

section \<open>Progress store\<close>

definition create_shape_progress :: shape_progress where
  "create_shape_progress =
     \<lparr>current_level = ''beginner'',
      levels =
        [''beginner'' \<mapsto>
           \<lparr>unlocked = True, attempts = 0, correct = 0, completed = False, questions = []\<rparr>,
         ''intermediate'' \<mapsto>
           \<lparr>unlocked = False, attempts = 0, correct = 0, completed = False, questions = []\<rparr>,
         ''expert'' \<mapsto>
           \<lparr>unlocked = False, attempts = 0, correct = 0, completed = False, questions = []\<rparr>],
      mastered = False\<rparr>"

definition initial_progress :: progress_record where
  "initial_progress =
     \<lparr>total_attempts = 0, correct_answers = 0, wrong_answers = 0,
      shapes =
        [''square'' \<mapsto> create_shape_progress,
         ''rectangle'' \<mapsto> create_shape_progress,
         ''triangle'' \<mapsto> create_shape_progress,
         ''circle'' \<mapsto> create_shape_progress],
      history = []\<rparr>"

definition init_progress :: "session \<Rightarrow> session" where
  "init_progress s =
     (case progress s of
        None \<Rightarrow> s\<lparr>progress := Some initial_progress\<rparr>
      | Some _ \<Rightarrow> s)"

text \<open>\<^verbatim>\<open>d[k]\<close> on a dictionary raises \<^verbatim>\<open>KeyError\<close> for a missing key.\<close>

definition lookup :: "('k \<rightharpoonup> 'v) \<Rightarrow> 'k \<Rightarrow> py_error + 'v" where
  "lookup m k = (case m k of None \<Rightarrow> Inl KeyError | Some v \<Rightarrow> Inr v)"

text \<open>\<^verbatim>\<open>progress['shapes'][shape]['levels'][level]\<close>\<close>

definition get_level_data :: "progress_record \<Rightarrow> string \<Rightarrow> string \<Rightarrow> py_error + level_data" where
  "get_level_data p shape level =
     (case lookup (shapes p) shape of
        Inl e \<Rightarrow> Inl e
      | Inr sp \<Rightarrow> lookup (levels sp) level)"

text \<open>Storing a changed level entry back into the nested dictionaries.\<close>

definition put_level_data ::
    "progress_record \<Rightarrow> string \<Rightarrow> string \<Rightarrow> level_data \<Rightarrow> progress_record" where
  "put_level_data p shape level ld =
     (case shapes p shape of
        None \<Rightarrow> p
      | Some sp \<Rightarrow> p\<lparr>shapes := (shapes p)(shape \<mapsto> sp\<lparr>levels := (levels sp)(level \<mapsto> ld)\<rparr>)\<rparr>)"

section \<open>Level progression\<close>

record level_status =
  can_advance :: bool
  level_complete :: bool
  needs_help :: bool
  ls_attempts :: int
  ls_correct :: int
  required :: int
  accuracy :: real
  threshold :: real

text \<open>\<^verbatim>\<open>xs[-n:]\<close>: the last \<open>n\<close> elements, or all of them when there are fewer.\<close>

definition last_n :: "nat \<Rightarrow> 'a list \<Rightarrow> 'a list" where
  "last_n n xs = drop (length xs - n) xs"

definition check_level_progress ::
    "string \<Rightarrow> string \<Rightarrow> session \<Rightarrow> py_error + (level_status \<times> session)" where
  "check_level_progress shape level s0 =
     (let s = init_progress s0
      in case progress s of
           None \<Rightarrow> Inl KeyError
         | Some p \<Rightarrow>
            (case get_level_data p shape level of
               Inl e \<Rightarrow> Inl e
             | Inr ld \<Rightarrow>
                (case lookup LEVELS level of
                   Inl e \<Rightarrow> Inl e
                 | Inr level_config \<Rightarrow>
                    (let acc = (if attempts ld > 0
                                then real_of_int (correct ld) / real_of_int (attempts ld)
                                else 0);
                         enough = (attempts ld \<ge> questions_required level_config);
                         pass = (enough \<and> acc \<ge> pass_threshold level_config);
                         low = (enough \<and> \<not> acc \<ge> pass_threshold level_config \<and> acc < 0.4);
                         recent = (if length (questions ld) \<ge> 3
                                   then last_n 3 (questions ld) else []);
                         struggling = (length recent = 3 \<and> list_all (\<lambda>q. \<not> qr_correct q) recent)
                     in Inr (\<lparr>can_advance = pass, level_complete = pass,
                               needs_help = (low \<or> struggling),
                               ls_attempts = attempts ld, ls_correct = correct ld,
                               required = questions_required level_config,
                               accuracy = acc,
                               threshold = pass_threshold level_config\<rparr>, s)))))"

record advance_result =
  advanced :: bool
  new_level :: "string option"
  shape_mastered :: bool

text \<open>\<^verbatim>\<open>xs.index(x)\<close>: the first position of \<open>x\<close>; \<^verbatim>\<open>ValueError\<close> when it is absent.\<close>

fun index_from :: "nat \<Rightarrow> 'a list \<Rightarrow> 'a \<Rightarrow> nat option" where
  "index_from i [] x = None"
| "index_from i (y # ys) x = (if y = x then Some i else index_from (Suc i) ys x)"

definition list_index :: "'a list \<Rightarrow> 'a \<Rightarrow> py_error + nat" where
  "list_index xs x = (case index_from 0 xs x of None \<Rightarrow> Inl ValueError | Some i \<Rightarrow> Inr i)"

definition advance_level :: "string \<Rightarrow> session \<Rightarrow> py_error + (advance_result \<times> session)" where
  "advance_level shape s0 =
     (let s = init_progress s0
      in case progress s of
           None \<Rightarrow> Inl KeyError
         | Some p \<Rightarrow>
            (case lookup (shapes p) shape of
               Inl e \<Rightarrow> Inl e
             | Inr sp \<Rightarrow>
                (case list_index LEVEL_ORDER (current_level sp) of
                   Inl e \<Rightarrow> Inl e
                 | Inr current_index \<Rightarrow>
                    (case lookup (levels sp) (current_level sp) of
                       Inl e \<Rightarrow> Inl e
                     | Inr cur \<Rightarrow>
                        (let sp1 = sp\<lparr>levels := (levels sp)(current_level sp \<mapsto> cur\<lparr>completed := True\<rparr>)\<rparr>
                         in if current_index < length LEVEL_ORDER - 1 then
                              (let next_level = LEVEL_ORDER ! (current_index + 1)
                               in case lookup (levels sp1) next_level of
                                    Inl e \<Rightarrow> Inl e
                                  | Inr nxt \<Rightarrow>
                                     (let sp2 = sp1\<lparr>current_level := next_level,
                                                     levels := (levels sp1)(next_level \<mapsto> nxt\<lparr>unlocked := True\<rparr>)\<rparr>
                                      in Inr (\<lparr>advanced = True, new_level = Some next_level,
                                                shape_mastered = False\<rparr>,
                                              s\<lparr>progress := Some (p\<lparr>shapes := (shapes p)(shape \<mapsto> sp2)\<rparr>)\<rparr>)))
                            else
                              (let sp2 = sp1\<lparr>mastered := True\<rparr>
                               in Inr (\<lparr>advanced = False, new_level = None, shape_mastered = True\<rparr>,
                                       s\<lparr>progress := Some (p\<lparr>shapes := (shapes p)(shape \<mapsto> sp2)\<rparr>)\<rparr>)))))))"

definition update_progress ::
    "string \<Rightarrow> string \<Rightarrow> bool \<Rightarrow> question \<Rightarrow> session \<Rightarrow> py_error + (progress_record \<times> session)" where
  "update_progress shape level ok question_data s0 =
     (let s = init_progress s0
      in case progress s of
           None \<Rightarrow> Inl KeyError
         | Some p \<Rightarrow>
            (let p1 = p\<lparr>total_attempts := total_attempts p + 1\<rparr>;
                 p2 = (if ok then p1\<lparr>correct_answers := correct_answers p1 + 1\<rparr>
                       else p1\<lparr>wrong_answers := wrong_answers p1 + 1\<rparr>)
             in case get_level_data p2 shape level of
                  Inl e \<Rightarrow> Inl e
                | Inr ld \<Rightarrow>
                   (let ld1 = ld\<lparr>attempts := attempts ld + 1\<rparr>;
                        ld2 = (if ok then ld1\<lparr>correct := correct ld1 + 1\<rparr> else ld1);
                        ld3 = ld2\<lparr>questions := questions ld2 @
                                 [\<lparr>qr_correct = ok,
                                   qr_user_answer = (case user_answer question_data of
                                                       None \<Rightarrow> 0 | Some u \<Rightarrow> u),
                                   qr_correct_answer = correct_answer question_data\<rparr>]\<rparr>;
                        ld4 = (if length (questions ld3) > 20
                               then ld3\<lparr>questions := last_n 20 (questions ld3)\<rparr> else ld3);
                        p3 = put_level_data p2 shape level ld4;
                        p4 = p3\<lparr>history := history p3 @
                                 [\<lparr>h_shape = shape, h_level = level, h_correct = ok\<rparr>]\<rparr>;
                        p5 = (if length (history p4) > 50
                              then p4\<lparr>history := last_n 50 (history p4)\<rparr> else p4)
                    in Inr (p5, s\<lparr>progress := Some p5\<rparr>))))"

section \<open>Request handlers\<close>

text \<open>
  The JSON body of a request, and Python's \<^verbatim>\<open>float(...)\<close> on a decoded JSON value. How
  \<^verbatim>\<open>float\<close> reads a string is a parameter \<open>parse\<close> of the model: \<open>None\<close> where Python
  raises \<^verbatim>\<open>ValueError\<close>. Python's non-finite floats (\<^verbatim>\<open>inf\<close>, \<^verbatim>\<open>nan\<close>) have no
  counterpart among the real numbers and are outside the model.
\<close>

datatype json =
    JNull
  | JBool bool
  | JNum real
  | JStr string
  | JArr "json list"
  | JObj "(string \<times> json) list"

definition py_float :: "(string \<Rightarrow> real option) \<Rightarrow> json \<Rightarrow> py_error + real" where
  "py_float parse v =
     (case v of
        JNum x \<Rightarrow> Inr x
      | JBool b \<Rightarrow> Inr (if b then 1 else 0)
      | JStr str \<Rightarrow> (case parse str of None \<Rightarrow> Inl ValueError | Some x \<Rightarrow> Inr x)
      | _ \<Rightarrow> Inl TypeError)"

text \<open>\<^verbatim>\<open>data['user_answer']\<close>: a decoded object keeps the last value of a repeated key;
  subscripting anything that is not an object with a string raises \<^verbatim>\<open>TypeError\<close>.\<close>

definition subscript :: "json \<Rightarrow> string \<Rightarrow> py_error + json" where
  "subscript data k =
     (case data of
        JObj kvs \<Rightarrow> lookup (map_of (rev kvs)) k
      | _ \<Rightarrow> Inl TypeError)"

record answer_response =
  r_is_correct :: bool
  r_is_close :: bool
  r_ai_category :: string
  r_level_status :: level_status
  r_level_up :: "advance_result option"
  r_total_attempts :: int
  r_total_correct :: int

datatype response = Redirect | JsonError nat | JsonOk answer_response

fun status_code :: "response \<Rightarrow> nat" where
  "status_code Redirect = 302"
| "status_code (JsonError n) = n"
| "status_code (JsonOk _) = 200"

text \<open>
  The body of the handler's \<^verbatim>\<open>try\<close> block. \<open>body = None\<close> stands for a request whose
  body \<^verbatim>\<open>request.get_json()\<close> cannot decode, which raises inside the block.
\<close>

definition submit_answer_try ::
    "(string \<Rightarrow> real option) \<Rightarrow> json option \<Rightarrow> session \<Rightarrow> py_error + (response \<times> session)" where
  "submit_answer_try parse body s =
     (case body of
        None \<Rightarrow> Inl BadRequest
      | Some data \<Rightarrow>
         (case subscript data ''user_answer'' of
            Inl e \<Rightarrow> Inl e
          | Inr v \<Rightarrow>
             (case py_float parse v of
                Inl e \<Rightarrow> Inl e
              | Inr ua \<Rightarrow>
                 (case current_question s of
                    None \<Rightarrow> Inr (JsonError 400, s)
                  | Some q \<Rightarrow>
                     (let c = correct_answer q;
                          shape = q_shape q;
                          level = q_level q;
                          ok = is_correct ua c;
                          close = is_close ua c;
                          q1 = q\<lparr>user_answer := Some ua\<rparr>;
                          s1 = s\<lparr>current_question := Some q1\<rparr>
                      in case update_progress shape level ok q1 s1 of
                           Inl e \<Rightarrow> Inl e
                         | Inr (p, s2) \<Rightarrow>
                            (case check_level_progress shape level s2 of
                               Inl e \<Rightarrow> Inl e
                             | Inr (st, s3) \<Rightarrow>
                                (let reply = (\<lambda>cat up.
                                       JsonOk \<lparr>r_is_correct = ok, r_is_close = close,
                                               r_ai_category = cat, r_level_status = st,
                                               r_level_up = up,
                                               r_total_attempts = total_attempts p,
                                               r_total_correct = correct_answers p\<rparr>)
                                 in if ok then
                                      (if can_advance st then
                                         (case advance_level shape s3 of
                                            Inl e \<Rightarrow> Inl e
                                          | Inr (adv, s4) \<Rightarrow>
                                             Inr (reply (if shape_mastered adv
                                                         then ''level_complete''
                                                         else ''level_up'') (Some adv), s4))
                                       else Inr (reply ''correct'' None, s3))
                                    else if close then Inr (reply ''close'' None, s3)
                                    else if needs_help st then Inr (reply ''struggling'' None, s3)
                                    else Inr (reply ''wrong'' None, s3))))))))"

text \<open>
  The handler: \<^verbatim>\<open>require_session\<close> redirects a visitor without identity; a
  \<^verbatim>\<open>ValueError\<close> raised in the block is answered with 400 and any other exception with
  500. An exception leaves the stored session as it was when the request came in.
\<close>

definition submit_answer ::
    "(string \<Rightarrow> real option) \<Rightarrow> json option \<Rightarrow> session \<Rightarrow> response \<times> session" where
  "submit_answer parse body s =
     (if student_id s = None then (Redirect, s)
      else case submit_answer_try parse body s of
             Inl ValueError \<Rightarrow> (JsonError 400, s)
           | Inl _ \<Rightarrow> (JsonError 500, s)
           | Inr (r, s') \<Rightarrow> (r, s'))"

text \<open>
  \<^verbatim>\<open>GET /practice/<shape_name>\<close>: generates a question at the shape's current level and
  stores it as the current question. An unknown shape or level raises \<^verbatim>\<open>KeyError\<close> or
  \<^verbatim>\<open>ValueError\<close> before anything is stored.
\<close>

definition practice :: "string \<Rightarrow> real \<Rightarrow> real \<Rightarrow> session \<Rightarrow> py_error + session" where
  "practice shape_name r1 r2 s0 =
     (if student_id s0 = None then Inr s0
      else
        (let s = init_progress s0
         in case progress s of
              None \<Rightarrow> Inl KeyError
            | Some p \<Rightarrow>
               (case lookup (shapes p) shape_name of
                  Inl e \<Rightarrow> Inl e
                | Inr sp \<Rightarrow>
                   (case lookup LEVELS (current_level sp) of
                      Inl e \<Rightarrow> Inl e
                    | Inr level_config \<Rightarrow>
                       (case list_index LEVEL_ORDER (current_level sp) of
                          Inl e \<Rightarrow> Inl e
                        | Inr level_index \<Rightarrow>
                           (let s1 = s\<lparr>current_question :=
                                         generate_question shape_name (current_level sp) r1 r2\<rparr>
                            in case check_level_progress shape_name (current_level sp) s1 of
                                 Inl e \<Rightarrow> Inl e
                               | Inr (st, s2) \<Rightarrow> Inr s2))))))"

text \<open>\<^verbatim>\<open>GET /reset\<close> clears the whole session.\<close>

definition reset :: "session \<Rightarrow> session" where
  "reset s = \<lparr>student_id = None, progress = None, current_question = None, current_shape = None\<rparr>"

text \<open>\<^verbatim>\<open>GET /reset-shape/<shape_name>\<close>\<close>

definition reset_shape :: "string \<Rightarrow> session \<Rightarrow> session" where
  "reset_shape shape_name s0 =
     (if student_id s0 = None then s0
      else
        (let s = init_progress s0
         in case progress s of
              None \<Rightarrow> s
            | Some p \<Rightarrow>
               if shape_name \<in> dom (shapes p)
               then s\<lparr>progress := Some (p\<lparr>shapes := (shapes p)(shape_name \<mapsto> create_shape_progress)\<rparr>)\<rparr>
               else s))"

section \<open>Reading the progress store\<close>

text \<open>The entry of a shape, and of one of its levels, in a session's progress record.\<close>

definition shape_state :: "session \<Rightarrow> string \<Rightarrow> shape_progress option" where
  "shape_state s shape = (case progress s of None \<Rightarrow> None | Some p \<Rightarrow> shapes p shape)"

definition level_state :: "session \<Rightarrow> string \<Rightarrow> string \<Rightarrow> level_data option" where
  "level_state s shape level =
     (case shape_state s shape of None \<Rightarrow> None | Some sp \<Rightarrow> levels sp level)"

text \<open>
  The specification's advancement condition on the recorded counters of a level:
  \<open>attempts \<ge> questions_required\<close> and \<open>correct / attempts \<ge> pass_threshold\<close>.
\<close>

definition passes :: "session \<Rightarrow> string \<Rightarrow> string \<Rightarrow> bool" where
  "passes s shape level =
     (case level_state s shape level of
        None \<Rightarrow> False
      | Some ld \<Rightarrow>
         (case LEVELS level of
            None \<Rightarrow> False
          | Some cfg \<Rightarrow>
             attempts ld \<ge> questions_required cfg
             \<and> real_of_int (correct ld) / real_of_int (attempts ld) \<ge> pass_threshold cfg))"

definition level_completed :: "session \<Rightarrow> string \<Rightarrow> string \<Rightarrow> bool" where
  "level_completed s shape level = (map_option completed (level_state s shape level) = Some True)"

text \<open>The invariant \<open>correct \<le> attempts\<close> at every level of every shape.\<close>

definition counts_ok :: "progress_record \<Rightarrow> bool" where
  "counts_ok p =
     (\<forall>shape sp level ld.
        shapes p shape = Some sp \<longrightarrow> levels sp level = Some ld \<longrightarrow> correct ld \<le> attempts ld)"

definition session_ok :: "session \<Rightarrow> bool" where
  "session_ok s = (case progress s of None \<Rightarrow> True | Some p \<Rightarrow> counts_ok p)"

section \<open>Example states\<close>

text \<open>
  A visitor who has answered four beginner questions on the square, all of them correctly,
  and has the question "square with sides of 4 cm" pending.
\<close>

definition example_question :: question where
  "example_question =
     \<lparr>q_shape = ''square'', q_level = ''beginner'', given = [(''side'', 4)],
      correct_answer = 16, user_answer = None\<rparr>"

definition four_right :: level_data where
  "four_right =
     \<lparr>unlocked = True, attempts = 4, correct = 4, completed = False,
      questions = replicate 4 \<lparr>qr_correct = True, qr_user_answer = 16, qr_correct_answer = 16\<rparr>\<rparr>"

definition example_square :: shape_progress where
  "example_square =
     create_shape_progress\<lparr>levels := (levels create_shape_progress)(''beginner'' \<mapsto> four_right)\<rparr>"

definition example_progress :: progress_record where
  "example_progress =
     initial_progress\<lparr>total_attempts := 4, correct_answers := 4,
       shapes := (shapes initial_progress)(''square'' \<mapsto> example_square)\<rparr>"

definition example_session :: session where
  "example_session =
     \<lparr>student_id = Some ''visitor'', progress = Some example_progress,
      current_question = Some example_question, current_shape = Some ''square''\<rparr>"

text \<open>
  A visitor with seven right answers followed by three wrong ones on the beginner square:
  the overall accuracy is 0.7, the last three answers are all wrong.
\<close>

definition three_wrong :: level_data where
  "three_wrong =
     \<lparr>unlocked = True, attempts = 10, correct = 7, completed = False,
      questions =
        replicate 7 \<lparr>qr_correct = True, qr_user_answer = 16, qr_correct_answer = 16\<rparr>
        @ replicate 3 \<lparr>qr_correct = False, qr_user_answer = 100, qr_correct_answer = 16\<rparr>\<rparr>"

definition struggling_square :: shape_progress where
  "struggling_square =
     create_shape_progress\<lparr>levels := (levels create_shape_progress)(''beginner'' \<mapsto> three_wrong)\<rparr>"

definition struggling_progress :: progress_record where
  "struggling_progress =
     initial_progress\<lparr>total_attempts := 10, correct_answers := 7, wrong_answers := 3,
       shapes := (shapes initial_progress)(''square'' \<mapsto> struggling_square)\<rparr>"

definition struggling_session :: session where
  "struggling_session =
     \<lparr>student_id = Some ''visitor'', progress = Some struggling_progress,
      current_question = Some example_question, current_shape = Some ''square''\<rparr>"

text \<open>Request bodies: the right answer, a wrong answer, and a body without an answer.\<close>

definition right_body :: "json option" where
  "right_body = Some (JObj [(''user_answer'', JNum 16)])"

definition wrong_body :: "json option" where
  "wrong_body = Some (JObj [(''user_answer'', JNum 100)])"

definition empty_body :: "json option" where
  "empty_body = Some (JObj [])"

definition null_body :: "json option" where
  "null_body = Some (JObj [(''user_answer'', JNull)])"

definition text_body :: "json option" where
  "text_body = Some (JObj [(''user_answer'', JStr ''abc'')])"

section \<open>Properties of the question generator and of answer evaluation\<close>

lemma round_half_even_ge_floor: "\<lfloor>x\<rfloor> \<le> round_half_even x"
  by (simp add: round_half_even_def Let_def)

lemma round_half_even_ge: "of_int k \<le> x \<Longrightarrow> k \<le> round_half_even x"
  using round_half_even_ge_floor [of x] le_floor_iff [of k x] by linarith

lemma py_round_ge:
  assumes "lo * 10 ^ n = of_int k" and "lo \<le> x"
  shows "lo \<le> py_round x n"
proof -
  have "lo * 10 ^ n \<le> x * 10 ^ n" using assms(2) by simp
  then have "k \<le> round_half_even (x * 10 ^ n)"
    using assms(1) round_half_even_ge by simp
  then have "(of_int k :: real) \<le> of_int (round_half_even (x * 10 ^ n))" by simp
  then have "lo * 10 ^ n \<le> of_int (round_half_even (x * 10 ^ n))" using assms(1) by simp
  then show ?thesis
    by (simp add: py_round_def pos_le_divide_eq)
qed

lemma uniform_ge: "lo \<le> hi \<Longrightarrow> 0 \<le> r \<Longrightarrow> lo \<le> uniform lo hi r"
  by (simp add: uniform_def)

lemma draw_ge:
  assumes "lo * 10 ^ d = of_int k" and "0 \<le> lo" and "lo \<le> hi" and "0 \<le> r"
  shows "lo \<le> draw lo hi d r"
proof -
  let ?v = "py_round (uniform lo hi r) d"
  have v: "lo \<le> ?v" using py_round_ge [OF assms(1)] uniform_ge assms by simp
  show ?thesis
  proof (cases "d = 0")
    case False
    then show ?thesis using v by (simp add: draw_def)
  next
    case True
    then have lo: "lo = of_int k" using assms(1) by simp
    have "0 \<le> ?v" using v assms(2) by linarith
    then have "py_int ?v = \<lfloor>?v\<rfloor>" by (simp add: py_int_def)
    moreover have "k \<le> \<lfloor>?v\<rfloor>" using v lo by (simp add: le_floor_iff)
    ultimately show ?thesis using True lo by (simp add: draw_def Let_def)
  qed
qed

lemma draw_level_pos:
  assumes "level_ranges level = (rmin, rmax, d)" and "0 \<le> r"
  shows "0 < draw rmin rmax d r"
    and "0 < draw rmin (rmax * 0.7) d r"
    and "0 < draw rmin (rmax * 0.8) d r"
    and "0 < draw (rmin * 0.5) (rmax * 0.5) d r"
proof -
  consider "rmin = 2 \<and> rmax = 10 \<and> d = 0" | "rmin = 3 \<and> rmax = 15 \<and> d = 1"
    | "rmin = 5 \<and> rmax = 25 \<and> d = 2"
    using assms(1) by (auto simp: level_ranges_def split: if_splits)
  then have "1 \<le> draw rmin rmax d r \<and> 1 \<le> draw rmin (rmax * 0.7) d r
      \<and> 1 \<le> draw rmin (rmax * 0.8) d r \<and> 1 \<le> draw (rmin * 0.5) (rmax * 0.5) d r"
  proof cases
    case 1
    then show ?thesis
      using draw_ge [of 2 0 2 10 r] draw_ge [of 2 0 2 "10 * 0.7" r] draw_ge [of 2 0 2 "10 * 0.8" r]
        draw_ge [of "2 * 0.5" 0 1 "10 * 0.5" r] assms(2) by simp
  next
    case 2
    then show ?thesis
      using draw_ge [of 3 1 30 15 r] draw_ge [of 3 1 30 "15 * 0.7" r] draw_ge [of 3 1 30 "15 * 0.8" r]
        draw_ge [of "3 * 0.5" 1 15 "15 * 0.5" r] assms(2) by simp
  next
    case 3
    then show ?thesis
      using draw_ge [of 5 2 500 25 r] draw_ge [of 5 2 500 "25 * 0.7" r] draw_ge [of 5 2 500 "25 * 0.8" r]
        draw_ge [of "5 * 0.5" 2 250 "25 * 0.5" r] assms(2) by simp
  qed
  then show "0 < draw rmin rmax d r"
    and "0 < draw rmin (rmax * 0.7) d r"
    and "0 < draw rmin (rmax * 0.8) d r"
    and "0 < draw (rmin * 0.5) (rmax * 0.5) d r" by linarith+
qed

text \<open>
  Claim C10. For each of the four valid shapes, at any level and for any draws of the random
  source that are not negative, \<open>generate_question\<close> returns a question whose
  \<open>correct_answer\<close> is strictly positive; so answer evaluation divides by a non-zero
  number and its error is the relative error, never the absolute-error fallback.
\<close>

theorem generated_answer_positive:
  assumes "shape \<in> valid_shapes" and "0 \<le> r1" and "0 \<le> r2"
  shows "\<exists>q. generate_question shape level r1 r2 = Some q \<and> 0 < correct_answer q
           \<and> (\<forall>ua. answer_error ua (correct_answer q) = \<bar>ua - correct_answer q\<bar> / correct_answer q)"
proof -
  obtain rmin rmax d where lr: "level_ranges level = (rmin, rmax, d)"
    by (cases "level_ranges level") auto
  note pos = draw_level_pos [OF lr]
  from assms(1) consider "shape = ''square''" | "shape = ''rectangle''"
    | "shape = ''triangle''" | "shape = ''circle''"
    by (auto simp: valid_shapes_def)
  then show ?thesis
  proof cases
    case 1
    then show ?thesis using pos(1) [OF assms(2)]
      by (simp add: generate_question_def lr Let_def answer_error_def)
  next
    case 2
    then show ?thesis using pos(1) [OF assms(2)] pos(2) [OF assms(3)]
      by (simp add: generate_question_def lr Let_def answer_error_def)
  next
    case 3
    then show ?thesis using pos(1) [OF assms(2)] pos(3) [OF assms(3)]
      by (simp add: generate_question_def lr Let_def answer_error_def)
  next
    case 4
    then show ?thesis using pos(4) [OF assms(2)]
      by (simp add: generate_question_def lr Let_def answer_error_def)
  qed
qed

lemma draw_beginner_quarter: "draw 2 10 0 (1 / 4) = 4"
  by (simp add: draw_def uniform_def py_round_def round_half_even_def py_int_def)

theorem generated_answer_positive_witness:
  "''square'' \<in> valid_shapes \<and> (0::real) \<le> 1 / 4 \<and> (0::real) \<le> 0
   \<and> generate_question ''square'' ''beginner'' (1 / 4) 0
       = Some \<lparr>q_shape = ''square'', q_level = ''beginner'', given = [(''side'', 4)],
               correct_answer = 16, user_answer = None\<rparr>
   \<and> answer_error 16.3 16 = 3 / 160"
  using generated_answer_positive [of "''square''" "1 / 4" 0 "''beginner''"]
  by (simp add: valid_shapes_def generate_question_def level_ranges_def draw_beginner_quarter
      answer_error_def)

text \<open>
  Claim C4. Answer evaluation computes the relative error \<open>|user - correct| / correct\<close>, or
  the absolute error \<open>|user - correct|\<close> when the correct answer is zero; the outcome is
  \<open>Correct\<close> exactly when the error is at most 0.02, \<open>Close\<close> exactly when it is above
  0.02 and at most 0.10, and \<open>Wrong\<close> exactly when it is above 0.10, so every answer falls
  into exactly one class.
\<close>

theorem answer_classification:
  "answer_error ua c = (if c = 0 then \<bar>ua - c\<bar> else \<bar>ua - c\<bar> / c)
   \<and> (is_correct ua c \<longleftrightarrow> answer_error ua c \<le> 0.02)
   \<and> (is_close ua c \<longleftrightarrow> 0.02 < answer_error ua c \<and> answer_error ua c \<le> 0.10)
   \<and> (classify ua c = Correct \<longleftrightarrow> answer_error ua c \<le> 0.02)
   \<and> (classify ua c = Close \<longleftrightarrow> 0.02 < answer_error ua c \<and> answer_error ua c \<le> 0.10)
   \<and> (classify ua c = Wrong \<longleftrightarrow> 0.10 < answer_error ua c)"
proof -
  define e where "e = answer_error ua c"
  have form: "answer_error ua c = (if c = 0 then \<bar>ua - c\<bar> else \<bar>ua - c\<bar> / c)"
    by (simp add: answer_error_def)
  have ok: "is_correct ua c \<longleftrightarrow> e \<le> 0.02"
    by (simp only: is_correct_def e_def)
  have cl: "is_close ua c \<longleftrightarrow> 0.02 < e \<and> e \<le> 0.10"
    unfolding is_close_def ok e_def [symmetric] by linarith
  have c1: "classify ua c = Correct \<longleftrightarrow> e \<le> 0.02"
    unfolding classify_def using ok by simp
  have c2: "classify ua c = Close \<longleftrightarrow> 0.02 < e \<and> e \<le> 0.10"
    unfolding classify_def using ok cl by auto
  have c3: "classify ua c = Wrong \<longleftrightarrow> 0.10 < e"
    unfolding classify_def using ok cl by auto
  show ?thesis
    using form ok cl c1 c2 c3 unfolding e_def by blast
qed

theorem answer_classification_witness:
  "classify 16.3 16 = Correct \<and> classify 17 16 = Close \<and> classify 25 16 = Wrong
   \<and> classify 0.01 0 = Correct \<and> classify 0.05 0 = Close"
  using answer_classification [of "16.3" 16] answer_classification [of 17 16]
    answer_classification [of 25 16] answer_classification [of "0.01" 0]
    answer_classification [of "0.05" 0]
  by (simp add: answer_error_def)

text \<open>
  Claim C5. For every valid shape and every level, \<open>generate_question\<close> returns a question
  whose \<open>correct_answer\<close> is the shape's closed-form area formula applied to the returned
  \<open>given\<close> parameters; for any other shape name it returns nothing.
\<close>

theorem generate_question_formula:
  "(shape \<in> valid_shapes \<longrightarrow>
      (\<exists>q. generate_question shape level r1 r2 = Some q \<and> q_shape q = shape \<and> q_level q = level
         \<and> closed_form_area shape (map_of (given q)) = Some (correct_answer q)))
   \<and> (shape \<notin> valid_shapes \<longrightarrow> generate_question shape level r1 r2 = None)"
  by (cases "level_ranges level")
     (auto simp: valid_shapes_def generate_question_def closed_form_area_def Let_def power2_eq_square)

theorem generate_question_formula_witness:
  "''circle'' \<in> valid_shapes \<and> ''hexagon'' \<notin> valid_shapes
   \<and> (\<exists>q. generate_question ''circle'' ''beginner'' (1 / 2) 0 = Some q
         \<and> closed_form_area ''circle'' (map_of (given q)) = Some (correct_answer q))
   \<and> generate_question ''hexagon'' ''expert'' 0 0 = None"
  using generate_question_formula [of "''circle''" "''beginner''" "1 / 2" 0]
    generate_question_formula [of "''hexagon''" "''expert''" 0 0]
  by (auto simp: valid_shapes_def)

section \<open>Properties of the progress store and of level progression\<close>

lemma init_progress_Some: "progress s = Some p \<Longrightarrow> init_progress s = s"
  by (simp add: init_progress_def)

lemma init_progress_None:
  "progress s = None \<Longrightarrow> init_progress s = s\<lparr>progress := Some initial_progress\<rparr>"
  by (simp add: init_progress_def)

lemma list_index_LEVEL_ORDER:
  "list_index LEVEL_ORDER ''beginner'' = Inr 0"
  "list_index LEVEL_ORDER ''intermediate'' = Inr 1"
  "list_index LEVEL_ORDER ''expert'' = Inr 2"
  by (simp_all add: list_index_def LEVEL_ORDER_def)

lemma LEVELS_cases:
  assumes "LEVELS level = Some cfg"
  shows "questions_required cfg = 5 \<and> 0.6 \<le> pass_threshold cfg"
  using assms by (auto simp: LEVELS_def split: if_splits)

lemma advance_level_run:
  assumes "progress s = Some p" and "shapes p shape = Some sp"
    and "current_level sp \<in> set LEVEL_ORDER" and "set LEVEL_ORDER \<subseteq> dom (levels sp)"
  shows "\<exists>r p' sp'. advance_level shape s = Inr (r, s\<lparr>progress := Some p'\<rparr>)
           \<and> shapes p' shape = Some sp'
           \<and> (\<forall>other. other \<noteq> shape \<longrightarrow> shapes p' other = shapes p other)
           \<and> map_option completed (levels sp' (current_level sp)) = Some True
           \<and> (current_level sp = ''beginner'' \<longrightarrow> current_level sp' = ''intermediate'')
           \<and> (current_level sp = ''intermediate'' \<longrightarrow> current_level sp' = ''expert'')
           \<and> (current_level sp \<noteq> ''expert'' \<longrightarrow>
                 map_option unlocked (levels sp' (current_level sp')) = Some True
                 \<and> (\<forall>l. l \<noteq> current_level sp' \<longrightarrow>
                       map_option unlocked (levels sp' l) = map_option unlocked (levels sp l))
                 \<and> mastered sp' = mastered sp
                 \<and> advanced r \<and> new_level r = Some (current_level sp') \<and> \<not> shape_mastered r)
           \<and> (current_level sp = ''expert'' \<longrightarrow>
                 mastered sp' \<and> current_level sp' = ''expert''
                 \<and> map_option completed (levels sp' ''expert'') = Some True
                 \<and> (\<forall>l. map_option unlocked (levels sp' l) = map_option unlocked (levels sp l))
                 \<and> \<not> advanced r \<and> new_level r = None \<and> shape_mastered r)
           \<and> (\<forall>l. map_option attempts (levels sp' l) = map_option attempts (levels sp l))
           \<and> (\<forall>l. map_option correct (levels sp' l) = map_option correct (levels sp l))
           \<and> total_attempts p' = total_attempts p \<and> correct_answers p' = correct_answers p
           \<and> wrong_answers p' = wrong_answers p \<and> history p' = history p"
proof -
  from assms(4) obtain b i e where lv: "levels sp ''beginner'' = Some b"
    "levels sp ''intermediate'' = Some i" "levels sp ''expert'' = Some e"
    by (auto simp: LEVEL_ORDER_def dom_def)
  from assms(3) consider "current_level sp = ''beginner''" | "current_level sp = ''intermediate''"
    | "current_level sp = ''expert''"
    by (auto simp: LEVEL_ORDER_def)
  then show ?thesis
  proof cases
    case 1
    let ?sp' = "sp\<lparr>current_level := ''intermediate'',
                     levels := (levels sp)(''beginner'' \<mapsto> b\<lparr>completed := True\<rparr>,
                                           ''intermediate'' \<mapsto> i\<lparr>unlocked := True\<rparr>)\<rparr>"
    let ?p' = "p\<lparr>shapes := (shapes p)(shape \<mapsto> ?sp')\<rparr>"
    let ?r = "\<lparr>advanced = True, new_level = Some ''intermediate'', shape_mastered = False\<rparr>"
    have "advance_level shape s = Inr (?r, s\<lparr>progress := Some ?p'\<rparr>)"
      using 1 assms(1,2) lv
      by (simp add: advance_level_def init_progress_Some lookup_def Let_def
          list_index_LEVEL_ORDER) (simp add: LEVEL_ORDER_def)
    then show ?thesis
      apply (intro exI [of _ ?r] exI [of _ ?p'] exI [of _ ?sp'])
      using 1 lv by simp
  next
    case 2
    let ?sp' = "sp\<lparr>current_level := ''expert'',
                     levels := (levels sp)(''intermediate'' \<mapsto> i\<lparr>completed := True\<rparr>,
                                           ''expert'' \<mapsto> e\<lparr>unlocked := True\<rparr>)\<rparr>"
    let ?p' = "p\<lparr>shapes := (shapes p)(shape \<mapsto> ?sp')\<rparr>"
    let ?r = "\<lparr>advanced = True, new_level = Some ''expert'', shape_mastered = False\<rparr>"
    have "advance_level shape s = Inr (?r, s\<lparr>progress := Some ?p'\<rparr>)"
      using 2 assms(1,2) lv
      by (simp add: advance_level_def init_progress_Some lookup_def Let_def
          list_index_LEVEL_ORDER) (simp add: LEVEL_ORDER_def)
    then show ?thesis
      apply (intro exI [of _ ?r] exI [of _ ?p'] exI [of _ ?sp'])
      using 2 lv by simp
  next
    case 3
    let ?sp' = "sp\<lparr>levels := (levels sp)(''expert'' \<mapsto> e\<lparr>completed := True\<rparr>),
                     mastered := True\<rparr>"
    let ?p' = "p\<lparr>shapes := (shapes p)(shape \<mapsto> ?sp')\<rparr>"
    let ?r = "\<lparr>advanced = False, new_level = None, shape_mastered = True\<rparr>"
    have "advance_level shape s = Inr (?r, s\<lparr>progress := Some ?p'\<rparr>)"
      using 3 assms(1,2) lv
      by (simp add: advance_level_def init_progress_Some lookup_def Let_def
          list_index_LEVEL_ORDER) (simp add: LEVEL_ORDER_def)
    then show ?thesis
      apply (intro exI [of _ ?r] exI [of _ ?p'] exI [of _ ?sp'])
      using 3 lv by simp
  qed
qed



lemma update_progress_props:
  assumes "progress s = Some p" and "shapes p shape = Some sp" and "levels sp level = Some ld"
  shows "\<exists>p' sp' ld'. update_progress shape level ok q s = Inr (p', s\<lparr>progress := Some p'\<rparr>)
     \<and> shapes p' shape = Some sp' \<and> levels sp' level = Some ld'
     \<and> attempts ld' = attempts ld + 1 \<and> correct ld' = correct ld + (if ok then 1 else 0)
     \<and> unlocked ld' = unlocked ld \<and> completed ld' = completed ld
     \<and> current_level sp' = current_level sp \<and> mastered sp' = mastered sp
     \<and> (\<forall>l. l \<noteq> level \<longrightarrow> levels sp' l = levels sp l)
     \<and> (\<forall>sh. sh \<noteq> shape \<longrightarrow> shapes p' sh = shapes p sh)
     \<and> total_attempts p' = total_attempts p + 1
     \<and> correct_answers p' = correct_answers p + (if ok then 1 else 0)
     \<and> wrong_answers p' = wrong_answers p + (if ok then 0 else 1)"
proof -
  define qs where "qs = questions ld @
      [\<lparr>qr_correct = ok,
        qr_user_answer = (case user_answer q of None \<Rightarrow> 0 | Some u \<Rightarrow> u),
        qr_correct_answer = correct_answer q\<rparr>]"
  define ld' where "ld' = ld\<lparr>attempts := attempts ld + 1,
      correct := correct ld + (if ok then 1 else 0),
      questions := (if 20 < length qs then last_n 20 qs else qs)\<rparr>"
  define sp' where "sp' = sp\<lparr>levels := (levels sp)(level \<mapsto> ld')\<rparr>"
  define hs where "hs = history p @ [\<lparr>h_shape = shape, h_level = level, h_correct = ok\<rparr>]"
  define p' where "p' = p\<lparr>total_attempts := total_attempts p + 1,
      correct_answers := correct_answers p + (if ok then 1 else 0),
      wrong_answers := wrong_answers p + (if ok then 0 else 1),
      shapes := (shapes p)(shape \<mapsto> sp'),
      history := (if 50 < length hs then last_n 50 hs else hs)\<rparr>"
  have r: "update_progress shape level ok q s = Inr (p', s\<lparr>progress := Some p'\<rparr>)"
  proof (cases ok)
    case True
    then show ?thesis
      using assms
      by (simp add: update_progress_def init_progress_Some Let_def get_level_data_def lookup_def
          put_level_data_def p'_def sp'_def ld'_def qs_def hs_def)
  next
    case False
    then show ?thesis
      using assms
      by (simp add: update_progress_def init_progress_Some Let_def get_level_data_def lookup_def
          put_level_data_def p'_def sp'_def ld'_def qs_def hs_def)
  qed
  show ?thesis
    apply (intro exI [of _ p'] exI [of _ sp'] exI [of _ ld'])
    using r by (simp add: p'_def sp'_def ld'_def)
qed



lemma check_level_progress_status:
  assumes "progress s = Some p" and "shapes p shape = Some sp"
    and "levels sp level = Some ld" and "LEVELS level = Some cfg"
  shows "\<exists>st. check_level_progress shape level s = Inr (st, s)
           \<and> ls_attempts st = attempts ld \<and> ls_correct st = correct ld
           \<and> required st = questions_required cfg \<and> threshold st = pass_threshold cfg
           \<and> accuracy st = (if attempts ld > 0
                             then real_of_int (correct ld) / real_of_int (attempts ld) else 0)
           \<and> (can_advance st \<longleftrightarrow>
                 attempts ld \<ge> questions_required cfg \<and> accuracy st \<ge> pass_threshold cfg)"
  using assms
  by (simp add: check_level_progress_def init_progress_Some Let_def get_level_data_def lookup_def)

lemma submit_answer_run:
  assumes "subscript data ''user_answer'' = Inr v" and "py_float parse v = Inr ua"
    and "current_question s = Some q"
    and "progress s = Some p" and "shapes p (q_shape q) = Some sp"
    and "levels sp (q_level q) = Some ld" and "LEVELS (q_level q) = Some cfg"
  shows "\<exists>p1 sp1 ld1 st cat.
      update_progress (q_shape q) (q_level q) (is_correct ua (correct_answer q))
          (q\<lparr>user_answer := Some ua\<rparr>) (s\<lparr>current_question := Some (q\<lparr>user_answer := Some ua\<rparr>)\<rparr>)
        = Inr (p1, s\<lparr>current_question := Some (q\<lparr>user_answer := Some ua\<rparr>), progress := Some p1\<rparr>)
      \<and> shapes p1 (q_shape q) = Some sp1 \<and> levels sp1 (q_level q) = Some ld1
      \<and> attempts ld1 = attempts ld + 1
      \<and> correct ld1 = correct ld + (if is_correct ua (correct_answer q) then 1 else 0)
      \<and> unlocked ld1 = unlocked ld \<and> completed ld1 = completed ld
      \<and> current_level sp1 = current_level sp \<and> mastered sp1 = mastered sp
      \<and> (\<forall>l. l \<noteq> q_level q \<longrightarrow> levels sp1 l = levels sp l)
      \<and> (\<forall>sh. sh \<noteq> q_shape q \<longrightarrow> shapes p1 sh = shapes p sh)
      \<and> total_attempts p1 = total_attempts p + 1
      \<and> check_level_progress (q_shape q) (q_level q)
           (s\<lparr>current_question := Some (q\<lparr>user_answer := Some ua\<rparr>), progress := Some p1\<rparr>)
         = Inr (st, s\<lparr>current_question := Some (q\<lparr>user_answer := Some ua\<rparr>), progress := Some p1\<rparr>)
      \<and> ls_attempts st = attempts ld1 \<and> ls_correct st = correct ld1
      \<and> required st = questions_required cfg \<and> threshold st = pass_threshold cfg
      \<and> accuracy st = (if attempts ld1 > 0
                        then real_of_int (correct ld1) / real_of_int (attempts ld1) else 0)
      \<and> (can_advance st \<longleftrightarrow>
            attempts ld1 \<ge> questions_required cfg \<and> accuracy st \<ge> pass_threshold cfg)
      \<and> submit_answer_try parse (Some data) s =
          (if is_correct ua (correct_answer q) \<and> can_advance st then
             (case advance_level (q_shape q)
                     (s\<lparr>current_question := Some (q\<lparr>user_answer := Some ua\<rparr>), progress := Some p1\<rparr>) of
                Inl e \<Rightarrow> Inl e
              | Inr (adv, s4) \<Rightarrow>
                 Inr (JsonOk \<lparr>r_is_correct = True,
                              r_is_close = is_close ua (correct_answer q),
                              r_ai_category = (if shape_mastered adv then ''level_complete''
                                               else ''level_up''),
                              r_level_status = st, r_level_up = Some adv,
                              r_total_attempts = total_attempts p1,
                              r_total_correct = correct_answers p1\<rparr>, s4))
           else
             Inr (JsonOk \<lparr>r_is_correct = is_correct ua (correct_answer q),
                          r_is_close = is_close ua (correct_answer q),
                          r_ai_category = cat,
                          r_level_status = st, r_level_up = None,
                          r_total_attempts = total_attempts p1,
                          r_total_correct = correct_answers p1\<rparr>,
                  s\<lparr>current_question := Some (q\<lparr>user_answer := Some ua\<rparr>), progress := Some p1\<rparr>))
      \<and> cat = (if is_correct ua (correct_answer q) then ''correct''
                 else if is_close ua (correct_answer q) then ''close''
                 else if needs_help st then ''struggling'' else ''wrong'')"
proof -
  let ?q1 = "q\<lparr>user_answer := Some ua\<rparr>"
  let ?s1 = "s\<lparr>current_question := Some ?q1\<rparr>"
  let ?ok = "is_correct ua (correct_answer q)"
  have ps1: "progress ?s1 = Some p" using assms(4) by simp
  from update_progress_props [OF ps1 assms(5,6), of ?ok ?q1]
  obtain p1 sp1 ld1 where
    up: "update_progress (q_shape q) (q_level q) ?ok ?q1 ?s1 = Inr (p1, ?s1\<lparr>progress := Some p1\<rparr>)"
    and props: "shapes p1 (q_shape q) = Some sp1" "levels sp1 (q_level q) = Some ld1"
      "attempts ld1 = attempts ld + 1"
      "correct ld1 = correct ld + (if ?ok then 1 else 0)"
      "unlocked ld1 = unlocked ld" "completed ld1 = completed ld"
      "current_level sp1 = current_level sp" "mastered sp1 = mastered sp"
      "\<forall>l. l \<noteq> q_level q \<longrightarrow> levels sp1 l = levels sp l"
      "\<forall>sh. sh \<noteq> q_shape q \<longrightarrow> shapes p1 sh = shapes p sh"
      "total_attempts p1 = total_attempts p + 1"
    by blast
  let ?s2 = "?s1\<lparr>progress := Some p1\<rparr>"
  have ps2: "progress ?s2 = Some p1" by simp
  from check_level_progress_status [OF ps2 props(1,2) assms(7)]
  obtain st where
    ck: "check_level_progress (q_shape q) (q_level q) ?s2 = Inr (st, ?s2)"
    and stp: "ls_attempts st = attempts ld1" "ls_correct st = correct ld1"
      "required st = questions_required cfg" "threshold st = pass_threshold cfg"
      "accuracy st = (if attempts ld1 > 0
                        then real_of_int (correct ld1) / real_of_int (attempts ld1) else 0)"
      "can_advance st \<longleftrightarrow>
            attempts ld1 \<ge> questions_required cfg \<and> accuracy st \<ge> pass_threshold cfg"
    by blast
  define cat where "cat = (if ?ok then ''correct''
      else if is_close ua (correct_answer q) then ''close''
      else if needs_help st then ''struggling'' else ''wrong'')"
  have run: "submit_answer_try parse (Some data) s =
          (if ?ok \<and> can_advance st then
             (case advance_level (q_shape q) ?s2 of
                Inl e \<Rightarrow> Inl e
              | Inr (adv, s4) \<Rightarrow>
                 Inr (JsonOk \<lparr>r_is_correct = True,
                              r_is_close = is_close ua (correct_answer q),
                              r_ai_category = (if shape_mastered adv then ''level_complete''
                                               else ''level_up''),
                              r_level_status = st, r_level_up = Some adv,
                              r_total_attempts = total_attempts p1,
                              r_total_correct = correct_answers p1\<rparr>, s4))
           else
             Inr (JsonOk \<lparr>r_is_correct = ?ok,
                          r_is_close = is_close ua (correct_answer q),
                          r_ai_category = cat,
                          r_level_status = st, r_level_up = None,
                          r_total_attempts = total_attempts p1,
                          r_total_correct = correct_answers p1\<rparr>, ?s2))"
    unfolding submit_answer_try_def
    using assms(1-3) up ck
    by (simp add: Let_def cat_def split: sum.splits prod.splits)
  show ?thesis
    apply (intro exI [of _ p1] exI [of _ sp1] exI [of _ ld1] exI [of _ st] exI [of _ cat])
    using up props ck stp run cat_def by simp
qed

text \<open>
  Claim C8. Resetting a single shape replaces that shape's progress by the initial state
  (current level beginner; beginner unlocked with 0 attempts, 0 correct, not completed and
  an empty question history; intermediate and expert locked; not mastered) and leaves every
  other shape's progress and the global counters and history unchanged.
\<close>

theorem reset_shape_frame:
  assumes "student_id s \<noteq> None" and "progress s = Some p" and "shapes p shape_name \<noteq> None"
  shows "\<exists>p'. reset_shape shape_name s = s\<lparr>progress := Some p'\<rparr>
           \<and> shapes p' shape_name = Some create_shape_progress
           \<and> (\<forall>other. other \<noteq> shape_name \<longrightarrow> shapes p' other = shapes p other)
           \<and> total_attempts p' = total_attempts p
           \<and> correct_answers p' = correct_answers p
           \<and> wrong_answers p' = wrong_answers p
           \<and> history p' = history p
           \<and> current_level create_shape_progress = ''beginner''
           \<and> mastered create_shape_progress = False
           \<and> levels create_shape_progress ''beginner''
               = Some \<lparr>unlocked = True, attempts = 0, correct = 0, completed = False, questions = []\<rparr>
           \<and> levels create_shape_progress ''intermediate''
               = Some \<lparr>unlocked = False, attempts = 0, correct = 0, completed = False, questions = []\<rparr>
           \<and> levels create_shape_progress ''expert''
               = Some \<lparr>unlocked = False, attempts = 0, correct = 0, completed = False, questions = []\<rparr>
           \<and> dom (levels create_shape_progress) = {''beginner'', ''intermediate'', ''expert''}"
proof -
  let ?p' = "p\<lparr>shapes := (shapes p)(shape_name \<mapsto> create_shape_progress)\<rparr>"
  have in_dom: "shape_name \<in> dom (shapes p)" using assms(3) by (simp add: dom_def)
  have r: "reset_shape shape_name s = s\<lparr>progress := Some ?p'\<rparr>"
    using assms(1,2) in_dom by (auto simp: reset_shape_def init_progress_Some Let_def)
  have init: "current_level create_shape_progress = ''beginner''"
    "mastered create_shape_progress = False"
    "levels create_shape_progress ''beginner''
       = Some \<lparr>unlocked = True, attempts = 0, correct = 0, completed = False, questions = []\<rparr>"
    "levels create_shape_progress ''intermediate''
       = Some \<lparr>unlocked = False, attempts = 0, correct = 0, completed = False, questions = []\<rparr>"
    "levels create_shape_progress ''expert''
       = Some \<lparr>unlocked = False, attempts = 0, correct = 0, completed = False, questions = []\<rparr>"
    by (simp_all add: create_shape_progress_def)
  have d: "dom (levels create_shape_progress) = {''beginner'', ''intermediate'', ''expert''}"
    by (auto simp: create_shape_progress_def)
  show ?thesis
    apply (rule exI [of _ ?p'])
    using r init d by simp
qed



text \<open>
  Claim C7. The \<open>needs_help\<close> signal of a shape and level is true exactly when either the
  attempts have reached \<open>questions_required\<close> and the accuracy is below 0.4, or the last
  three recorded answers at that level were all incorrect, whatever the overall accuracy.
  Computing the signal leaves the session unchanged, and a submission on which the handler
  consults it (an answer that is not correct) only selects the feedback category: the
  current level, the mastered flag and every completed and unlocked flag stay as they were.
\<close>

theorem check_level_progress_needs_help:
  assumes "progress s = Some p" and "shapes p shape = Some sp"
    and "levels sp level = Some ld" and "LEVELS level = Some cfg"
  shows "(\<exists>st. check_level_progress shape level s = Inr (st, s)
           \<and> ls_attempts st = attempts ld \<and> ls_correct st = correct ld
           \<and> required st = questions_required cfg
           \<and> accuracy st = (if attempts ld > 0
                             then real_of_int (correct ld) / real_of_int (attempts ld) else 0)
           \<and> (needs_help st \<longleftrightarrow>
                 (attempts ld \<ge> questions_required cfg \<and> accuracy st < 0.4)
                 \<or> (length (questions ld) \<ge> 3
                     \<and> (\<forall>q \<in> set (last_n 3 (questions ld)). \<not> qr_correct q))))
     \<and> (student_id s \<noteq> None \<and> subscript data ''user_answer'' = Inr v
          \<and> py_float parse v = Inr ua \<and> current_question s = Some q
          \<and> q_shape q = shape \<and> q_level q = level \<and> \<not> is_correct ua (correct_answer q)
         \<longrightarrow> (\<exists>resp s'. submit_answer parse (Some data) s = (JsonOk resp, s')
                \<and> r_ai_category resp =
                     (if is_close ua (correct_answer q) then ''close''
                      else if needs_help (r_level_status resp) then ''struggling''
                      else ''wrong'')
                \<and> r_level_up resp = None
                \<and> map_option current_level (shape_state s' shape) = Some (current_level sp)
                \<and> map_option mastered (shape_state s' shape) = Some (mastered sp)
                \<and> (\<forall>l. map_option completed (level_state s' shape l)
                         = map_option completed (levels sp l))
                \<and> (\<forall>l. map_option unlocked (level_state s' shape l)
                         = map_option unlocked (levels sp l))))"
proof (intro conjI impI)
  define acc where
    "acc = (if attempts ld > 0 then real_of_int (correct ld) / real_of_int (attempts ld) else 0)"
  define enough where "enough = (attempts ld \<ge> questions_required cfg)"
  define struggling where
    "struggling = (length (questions ld) \<ge> 3
                   \<and> (\<forall>q \<in> set (last_n 3 (questions ld)). \<not> qr_correct q))"
  define st where
    "st = \<lparr>can_advance = (enough \<and> acc \<ge> pass_threshold cfg),
            level_complete = (enough \<and> acc \<ge> pass_threshold cfg),
            needs_help = ((enough \<and> \<not> acc \<ge> pass_threshold cfg \<and> acc < 0.4) \<or> struggling),
            ls_attempts = attempts ld, ls_correct = correct ld,
            required = questions_required cfg, accuracy = acc,
            threshold = pass_threshold cfg\<rparr>"
  have thr: "0.6 \<le> pass_threshold cfg" using LEVELS_cases [OF assms(4)] by simp
  have len: "length (questions ld) \<ge> 3 \<Longrightarrow> length (last_n 3 (questions ld)) = 3"
    by (simp add: last_n_def)
  have eval: "check_level_progress shape level s = Inr (st, s)"
    using assms len
    by (auto simp: check_level_progress_def init_progress_Some Let_def get_level_data_def
        lookup_def st_def acc_def enough_def struggling_def list_all_iff)
  have low: "(enough \<and> \<not> acc \<ge> pass_threshold cfg \<and> acc < 0.4) \<longleftrightarrow> (enough \<and> acc < 0.4)"
    using thr by auto
  have nh: "needs_help st \<longleftrightarrow> (enough \<and> acc < 0.4) \<or> struggling"
    using low by (simp add: st_def)
  show "\<exists>st. check_level_progress shape level s = Inr (st, s)
           \<and> ls_attempts st = attempts ld \<and> ls_correct st = correct ld
           \<and> required st = questions_required cfg
           \<and> accuracy st = (if attempts ld > 0
                             then real_of_int (correct ld) / real_of_int (attempts ld) else 0)
           \<and> (needs_help st \<longleftrightarrow>
                 (attempts ld \<ge> questions_required cfg \<and> accuracy st < 0.4)
                 \<or> (length (questions ld) \<ge> 3
                     \<and> (\<forall>q \<in> set (last_n 3 (questions ld)). \<not> qr_correct q)))"
    apply (rule exI [of _ st])
    using eval nh
    by (simp add: st_def enough_def struggling_def acc_def [symmetric])
next
  assume h: "student_id s \<noteq> None \<and> subscript data ''user_answer'' = Inr v
          \<and> py_float parse v = Inr ua \<and> current_question s = Some q
          \<and> q_shape q = shape \<and> q_level q = level \<and> \<not> is_correct ua (correct_answer q)"
  then have sid: "student_id s \<noteq> None" and b: "subscript data ''user_answer'' = Inr v"
    "py_float parse v = Inr ua" and cq: "current_question s = Some q"
    and nm: "q_shape q = shape" "q_level q = level"
    and wrong: "\<not> is_correct ua (correct_answer q)"
    by simp_all
  let ?q1 = "q\<lparr>user_answer := Some ua\<rparr>"
  have a2: "shapes p (q_shape q) = Some sp" "levels sp (q_level q) = Some ld"
    "LEVELS (q_level q) = Some cfg"
    using assms nm by simp_all
  from submit_answer_run [OF b cq assms(1) a2]
  obtain p1 sp1 ld1 st cat where
    sh: "shapes p1 (q_shape q) = Some sp1"
    and lv: "levels sp1 (q_level q) = Some ld1"
    and flags: "unlocked ld1 = unlocked ld" "completed ld1 = completed ld"
      "current_level sp1 = current_level sp" "mastered sp1 = mastered sp"
    and others: "\<forall>l. l \<noteq> q_level q \<longrightarrow> levels sp1 l = levels sp l"
    and run: "submit_answer_try parse (Some data) s =
          (if is_correct ua (correct_answer q) \<and> can_advance st then
             (case advance_level (q_shape q)
                     (s\<lparr>current_question := Some ?q1, progress := Some p1\<rparr>) of
                Inl e \<Rightarrow> Inl e
              | Inr (adv, s4) \<Rightarrow>
                 Inr (JsonOk \<lparr>r_is_correct = True,
                              r_is_close = is_close ua (correct_answer q),
                              r_ai_category = (if shape_mastered adv then ''level_complete''
                                               else ''level_up''),
                              r_level_status = st, r_level_up = Some adv,
                              r_total_attempts = total_attempts p1,
                              r_total_correct = correct_answers p1\<rparr>, s4))
           else
             Inr (JsonOk \<lparr>r_is_correct = is_correct ua (correct_answer q),
                          r_is_close = is_close ua (correct_answer q),
                          r_ai_category = cat,
                          r_level_status = st, r_level_up = None,
                          r_total_attempts = total_attempts p1,
                          r_total_correct = correct_answers p1\<rparr>,
                  s\<lparr>current_question := Some ?q1, progress := Some p1\<rparr>))"
    and cat: "cat = (if is_correct ua (correct_answer q) then ''correct''
                 else if is_close ua (correct_answer q) then ''close''
                 else if needs_help st then ''struggling'' else ''wrong'')"
    by blast
  let ?s2 = "s\<lparr>current_question := Some ?q1, progress := Some p1\<rparr>"
  let ?resp = "\<lparr>r_is_correct = False, r_is_close = is_close ua (correct_answer q),
                r_ai_category = cat, r_level_status = st, r_level_up = None,
                r_total_attempts = total_attempts p1,
                r_total_correct = correct_answers p1\<rparr>"
  have "submit_answer_try parse (Some data) s = Inr (JsonOk ?resp, ?s2)"
    using run wrong by simp
  then have sub: "submit_answer parse (Some data) s = (JsonOk ?resp, ?s2)"
    using sid by (auto simp: submit_answer_def)
  have flags_l: "map_option completed (levels sp1 l) = map_option completed (levels sp l)"
    "map_option unlocked (levels sp1 l) = map_option unlocked (levels sp l)" for l
    using others lv flags a2(2) by (cases "l = q_level q"; simp)+
  show "\<exists>resp s'. submit_answer parse (Some data) s = (JsonOk resp, s')
                \<and> r_ai_category resp =
                     (if is_close ua (correct_answer q) then ''close''
                      else if needs_help (r_level_status resp) then ''struggling''
                      else ''wrong'')
                \<and> r_level_up resp = None
                \<and> map_option current_level (shape_state s' shape) = Some (current_level sp)
                \<and> map_option mastered (shape_state s' shape) = Some (mastered sp)
                \<and> (\<forall>l. map_option completed (level_state s' shape l)
                         = map_option completed (levels sp l))
                \<and> (\<forall>l. map_option unlocked (level_state s' shape l)
                         = map_option unlocked (levels sp l))"
    apply (rule exI [of _ ?resp], rule exI [of _ ?s2])
    using sub cat wrong sh flags flags_l nm
    by (simp add: level_state_def shape_state_def)
qed

text \<open>
  Claim C6. When advancement fires for a shape, its current level is marked completed;
  below expert, exactly the next level in the order beginner, intermediate, expert becomes
  unlocked and becomes the current level, and no other level's unlock flag changes; at
  expert the shape is marked mastered instead, with the expert level completed and no
  unlock flag changed.
\<close>

theorem advance_level_next:
  assumes "progress s = Some p" and "shapes p shape = Some sp"
    and "current_level sp \<in> set LEVEL_ORDER" and "set LEVEL_ORDER \<subseteq> dom (levels sp)"
  shows "\<exists>r p' sp'. advance_level shape s = Inr (r, s\<lparr>progress := Some p'\<rparr>)
           \<and> shapes p' shape = Some sp'
           \<and> (\<forall>other. other \<noteq> shape \<longrightarrow> shapes p' other = shapes p other)
           \<and> map_option completed (levels sp' (current_level sp)) = Some True
           \<and> (current_level sp = ''beginner'' \<longrightarrow> current_level sp' = ''intermediate'')
           \<and> (current_level sp = ''intermediate'' \<longrightarrow> current_level sp' = ''expert'')
           \<and> (current_level sp \<noteq> ''expert'' \<longrightarrow>
                 map_option unlocked (levels sp' (current_level sp')) = Some True
                 \<and> (\<forall>l. l \<noteq> current_level sp' \<longrightarrow>
                       map_option unlocked (levels sp' l) = map_option unlocked (levels sp l))
                 \<and> mastered sp' = mastered sp
                 \<and> advanced r \<and> new_level r = Some (current_level sp') \<and> \<not> shape_mastered r)
           \<and> (current_level sp = ''expert'' \<longrightarrow>
                 mastered sp' \<and> current_level sp' = ''expert''
                 \<and> map_option completed (levels sp' ''expert'') = Some True
                 \<and> (\<forall>l. map_option unlocked (levels sp' l) = map_option unlocked (levels sp l))
                 \<and> \<not> advanced r \<and> new_level r = None \<and> shape_mastered r)"
  using advance_level_run [OF assms]
  by (elim exE conjE) (intro exI conjI, assumption+)

theorem reset_shape_frame_witness:
  "student_id example_session \<noteq> None \<and> progress example_session = Some example_progress
   \<and> shapes example_progress ''square'' \<noteq> None
   \<and> (\<exists>p'. reset_shape ''square'' example_session = example_session\<lparr>progress := Some p'\<rparr>
         \<and> shapes p' ''square'' = Some create_shape_progress
         \<and> shapes p' ''circle'' = shapes example_progress ''circle''
         \<and> total_attempts p' = 4 \<and> correct_answers p' = 4)"
  using reset_shape_frame [of example_session example_progress "''square''"]
  by (auto simp: example_session_def example_progress_def initial_progress_def)

theorem check_level_progress_needs_help_witness:
  "progress struggling_session = Some struggling_progress
   \<and> shapes struggling_progress ''square'' = Some struggling_square
   \<and> levels struggling_square ''beginner'' = Some three_wrong
   \<and> LEVELS ''beginner'' = Some \<lparr>questions_required = 5, pass_threshold = 0.6\<rparr>
   \<and> (\<exists>st. check_level_progress ''square'' ''beginner'' struggling_session
               = Inr (st, struggling_session)
         \<and> accuracy st = 7 / 10 \<and> needs_help st)
   \<and> student_id struggling_session \<noteq> None
   \<and> subscript (JObj [(''user_answer'', JNum 100)]) ''user_answer'' = Inr (JNum 100)
   \<and> py_float Map.empty (JNum 100) = Inr 100
   \<and> current_question struggling_session = Some example_question
   \<and> q_shape example_question = ''square'' \<and> q_level example_question = ''beginner''
   \<and> \<not> is_correct 100 (correct_answer example_question)
   \<and> (\<exists>resp s'. submit_answer Map.empty wrong_body struggling_session = (JsonOk resp, s')
         \<and> r_level_up resp = None
         \<and> map_option current_level (shape_state s' ''square'') = Some ''beginner''
         \<and> map_option mastered (shape_state s' ''square'') = Some False)"
proof -
  have h1: "progress struggling_session = Some struggling_progress"
    by (simp add: struggling_session_def)
  have h2: "shapes struggling_progress ''square'' = Some struggling_square"
    by (simp add: struggling_progress_def)
  have h3: "levels struggling_square ''beginner'' = Some three_wrong"
    by (simp add: struggling_square_def)
  have h4: "LEVELS ''beginner'' = Some \<lparr>questions_required = 5, pass_threshold = 0.6\<rparr>"
    by (simp add: LEVELS_def)
  have l3: "last_n 3 (questions three_wrong)
      = replicate 3 \<lparr>qr_correct = False, qr_user_answer = 100, qr_correct_answer = 16\<rparr>"
    by (simp add: last_n_def three_wrong_def)
  have len: "length (questions three_wrong) = 10" by (simp add: three_wrong_def)
  have cnt: "attempts three_wrong = 10" "correct three_wrong = 7" by (simp_all add: three_wrong_def)
  have g1: "student_id struggling_session \<noteq> None" by (simp add: struggling_session_def)
  have g2: "subscript (JObj [(''user_answer'', JNum 100)]) ''user_answer'' = Inr (JNum 100)"
    by (simp add: subscript_def lookup_def)
  have g3: "py_float Map.empty (JNum 100) = Inr 100" by (simp add: py_float_def)
  have g4: "current_question struggling_session = Some example_question"
    by (simp add: struggling_session_def)
  have g5: "q_shape example_question = ''square''" "q_level example_question = ''beginner''"
    by (simp_all add: example_question_def)
  have g6: "\<not> is_correct 100 (correct_answer example_question)"
    by (simp add: is_correct_def answer_error_def example_question_def)
  have sq: "current_level struggling_square = ''beginner''" "mastered struggling_square = False"
    by (simp_all add: struggling_square_def create_shape_progress_def)
  note inst = check_level_progress_needs_help [OF h1 h2 h3 h4,
      where data = "JObj [(''user_answer'', JNum 100)]" and v = "JNum 100"
        and parse = Map.empty and ua = 100 and q = example_question]
  from inst [THEN conjunct1]
  obtain st where "check_level_progress ''square'' ''beginner'' struggling_session
               = Inr (st, struggling_session)"
    and "accuracy st = (if attempts three_wrong > 0
            then real_of_int (correct three_wrong) / real_of_int (attempts three_wrong) else 0)"
    and "needs_help st \<longleftrightarrow>
           (attempts three_wrong \<ge> questions_required \<lparr>questions_required = 5, pass_threshold = 0.6\<rparr>
              \<and> accuracy st < 0.4)
           \<or> (length (questions three_wrong) \<ge> 3
               \<and> (\<forall>q \<in> set (last_n 3 (questions three_wrong)). \<not> qr_correct q))"
    by blast
  then have part1: "\<exists>st. check_level_progress ''square'' ''beginner'' struggling_session
               = Inr (st, struggling_session) \<and> accuracy st = 7 / 10 \<and> needs_help st"
    by (simp add: l3 len cnt)
  from inst [THEN conjunct2] g1 g2 g3 g4 g5 g6
  obtain resp s' where "submit_answer Map.empty (Some (JObj [(''user_answer'', JNum 100)]))
        struggling_session = (JsonOk resp, s')"
    "r_level_up resp = None"
    "map_option current_level (shape_state s' ''square'') = Some (current_level struggling_square)"
    "map_option mastered (shape_state s' ''square'') = Some (mastered struggling_square)"
    by blast
  then have part2: "\<exists>resp s'. submit_answer Map.empty wrong_body struggling_session
           = (JsonOk resp, s')
         \<and> r_level_up resp = None
         \<and> map_option current_level (shape_state s' ''square'') = Some ''beginner''
         \<and> map_option mastered (shape_state s' ''square'') = Some False"
    using sq by (simp add: wrong_body_def)
  show ?thesis
    using h1 h2 h3 h4 part1 g1 g2 g3 g4 g5 g6 part2 by blast
qed

theorem advance_level_next_witness:
  "progress example_session = Some example_progress
   \<and> shapes example_progress ''square'' = Some example_square
   \<and> current_level example_square \<in> set LEVEL_ORDER
   \<and> set LEVEL_ORDER \<subseteq> dom (levels example_square)
   \<and> (\<exists>r p' sp'. advance_level ''square'' example_session
                      = Inr (r, example_session\<lparr>progress := Some p'\<rparr>)
         \<and> shapes p' ''square'' = Some sp'
         \<and> current_level sp' = ''intermediate''
         \<and> map_option unlocked (levels sp' ''intermediate'') = Some True
         \<and> map_option unlocked (levels sp' ''expert'') = Some False
         \<and> map_option completed (levels sp' ''beginner'') = Some True
         \<and> new_level r = Some ''intermediate'')"
proof -
  have h1: "progress example_session = Some example_progress"
    by (simp add: example_session_def)
  have h2: "shapes example_progress ''square'' = Some example_square"
    by (simp add: example_progress_def)
  have h3: "current_level example_square \<in> set LEVEL_ORDER"
    by (simp add: example_square_def create_shape_progress_def LEVEL_ORDER_def)
  have h4: "set LEVEL_ORDER \<subseteq> dom (levels example_square)"
    by (simp add: example_square_def create_shape_progress_def LEVEL_ORDER_def)
  have cur: "current_level example_square = ''beginner''"
    by (simp add: example_square_def create_shape_progress_def)
  have ex: "map_option unlocked (levels example_square ''expert'') = Some False"
    by (simp add: example_square_def create_shape_progress_def)
  from advance_level_next [OF h1 h2 h3 h4]
  obtain r p' sp' where
    "advance_level ''square'' example_session = Inr (r, example_session\<lparr>progress := Some p'\<rparr>)"
    "shapes p' ''square'' = Some sp'"
    "map_option completed (levels sp' (current_level example_square)) = Some True"
    "current_level example_square = ''beginner'' \<longrightarrow> current_level sp' = ''intermediate''"
    "current_level example_square \<noteq> ''expert'' \<longrightarrow>
        map_option unlocked (levels sp' (current_level sp')) = Some True
        \<and> (\<forall>l. l \<noteq> current_level sp' \<longrightarrow>
              map_option unlocked (levels sp' l) = map_option unlocked (levels example_square l))
        \<and> mastered sp' = mastered example_square
        \<and> advanced r \<and> new_level r = Some (current_level sp') \<and> \<not> shape_mastered r"
    by blast
  then have "advance_level ''square'' example_session
                      = Inr (r, example_session\<lparr>progress := Some p'\<rparr>)
         \<and> shapes p' ''square'' = Some sp'
         \<and> current_level sp' = ''intermediate''
         \<and> map_option unlocked (levels sp' ''intermediate'') = Some True
         \<and> map_option unlocked (levels sp' ''expert'') = Some False
         \<and> map_option completed (levels sp' ''beginner'') = Some True
         \<and> new_level r = Some ''intermediate''"
    using cur ex by simp
  then show ?thesis using h1 h2 h3 h4 by blast
qed

section \<open>Properties of answer submission\<close>

lemma example_session_facts:
  "student_id example_session \<noteq> None"
  "current_question example_session = Some example_question"
  "progress example_session = Some example_progress"
  "shapes example_progress (q_shape example_question) = Some example_square"
  "levels example_square (q_level example_question) = Some four_right"
  "LEVELS (q_level example_question) = Some \<lparr>questions_required = 5, pass_threshold = 0.6\<rparr>"
  "current_level example_square \<in> set LEVEL_ORDER"
  "set LEVEL_ORDER \<subseteq> dom (levels example_square)"
  by (simp_all add: example_session_def example_question_def example_progress_def
      example_square_def create_shape_progress_def LEVELS_def LEVEL_ORDER_def)

lemma body_facts:
  "subscript (JObj [(''user_answer'', JNum x)]) ''user_answer'' = Inr (JNum x)"
  "py_float parse (JNum x) = Inr x"
  by (simp_all add: subscript_def lookup_def py_float_def)

lemma submit_answer_of_try:
  "student_id s \<noteq> None \<Longrightarrow> submit_answer_try parse body s = Inr (r, s') \<Longrightarrow>
   submit_answer parse body s = (r, s')"
  by (auto simp: submit_answer_def)

text \<open>
  Claim C1 as stated does not hold. In the example state the fifth beginner answer on the
  square is wrong: after it is recorded the level has 5 attempts of 5 required and an
  accuracy of 4/5, above the threshold 0.6, yet the level is not completed and the current
  level stays beginner, because the handler asks for advancement only under
  \<^verbatim>\<open>if is_correct\<close>.
\<close>

theorem submit_wrong_answer_no_advance:
  "status_code (fst (submit_answer Map.empty wrong_body example_session)) = 200
   \<and> passes (snd (submit_answer Map.empty wrong_body example_session)) ''square'' ''beginner''
   \<and> \<not> level_completed (snd (submit_answer Map.empty wrong_body example_session))
         ''square'' ''beginner''
   \<and> map_option current_level
        (shape_state (snd (submit_answer Map.empty wrong_body example_session)) ''square'')
       = Some ''beginner''"
proof -
  have wrong: "\<not> is_correct 100 (correct_answer example_question)"
    by (simp add: is_correct_def answer_error_def example_question_def)
  from submit_answer_run [OF body_facts(1) [of 100]
      body_facts(2) [where parse = Map.empty and x = 100] example_session_facts(2-6)]
  obtain p1 sp1 ld1 st cat where
    sh: "shapes p1 (q_shape example_question) = Some sp1"
    and lv: "levels sp1 (q_level example_question) = Some ld1"
    and cnt: "attempts ld1 = attempts four_right + 1"
      "correct ld1 = correct four_right
          + (if is_correct 100 (correct_answer example_question) then 1 else 0)"
      "completed ld1 = completed four_right"
      "current_level sp1 = current_level example_square"
    and run: "submit_answer_try Map.empty (Some (JObj [(''user_answer'', JNum 100)])) example_session
      = (if is_correct 100 (correct_answer example_question) \<and> can_advance st then
             (case advance_level (q_shape example_question)
                     (example_session\<lparr>current_question :=
                         Some (example_question\<lparr>user_answer := Some 100\<rparr>), progress := Some p1\<rparr>) of
                Inl e \<Rightarrow> Inl e
              | Inr (adv, s4) \<Rightarrow>
                 Inr (JsonOk \<lparr>r_is_correct = True,
                              r_is_close = is_close 100 (correct_answer example_question),
                              r_ai_category = (if shape_mastered adv then ''level_complete''
                                               else ''level_up''),
                              r_level_status = st, r_level_up = Some adv,
                              r_total_attempts = total_attempts p1,
                              r_total_correct = correct_answers p1\<rparr>, s4))
           else
             Inr (JsonOk \<lparr>r_is_correct = is_correct 100 (correct_answer example_question),
                          r_is_close = is_close 100 (correct_answer example_question),
                          r_ai_category = cat,
                          r_level_status = st, r_level_up = None,
                          r_total_attempts = total_attempts p1,
                          r_total_correct = correct_answers p1\<rparr>,
                  example_session\<lparr>current_question :=
                         Some (example_question\<lparr>user_answer := Some 100\<rparr>), progress := Some p1\<rparr>))"
    by blast
  let ?s2 = "example_session\<lparr>current_question :=
                         Some (example_question\<lparr>user_answer := Some 100\<rparr>), progress := Some p1\<rparr>"
  obtain resp where sub: "submit_answer Map.empty wrong_body example_session = (JsonOk resp, ?s2)"
    using run wrong submit_answer_of_try [OF example_session_facts(1)]
    by (simp add: wrong_body_def)
  have names: "q_shape example_question = ''square''" "q_level example_question = ''beginner''"
    by (simp_all add: example_question_def)
  have ld1: "attempts ld1 = 5" "correct ld1 = 4" "\<not> completed ld1"
    using cnt wrong by (simp_all add: four_right_def)
  have cur: "current_level sp1 = ''beginner''"
    using cnt(4) by (simp add: example_square_def create_shape_progress_def)
  have "passes ?s2 ''square'' ''beginner''"
    using sh lv ld1 names
    by (simp add: passes_def level_state_def shape_state_def LEVELS_def)
  moreover have "\<not> level_completed ?s2 ''square'' ''beginner''"
    using sh lv ld1 names by (simp add: level_completed_def level_state_def shape_state_def)
  moreover have "map_option current_level (shape_state ?s2 ''square'') = Some ''beginner''"
    using sh cur names by (simp add: shape_state_def)
  ultimately show ?thesis using sub by simp
qed

text \<open>
  Claim C1, amended. For a submission that the handler processes (a numeric answer, a pending
  question whose shape and level are in the progress record), the level advances if and
  only if the submitted answer is classified correct and, after the submission is recorded,
  \<open>attempts \<ge> questions_required\<close> and \<open>correct / attempts \<ge> pass_threshold\<close> hold for the
  question's level. When it advances, the shape's current level is marked completed; when it
  does not, the current level, the mastered flag and all completed and unlocked flags of the
  shape are as before.
\<close>

theorem level_advances_iff:
  assumes "student_id s \<noteq> None"
    and "subscript data ''user_answer'' = Inr v" and "py_float parse v = Inr ua"
    and "current_question s = Some q"
    and "progress s = Some p" and "shapes p (q_shape q) = Some sp"
    and "levels sp (q_level q) = Some ld" and "LEVELS (q_level q) = Some cfg"
    and "current_level sp \<in> set LEVEL_ORDER" and "set LEVEL_ORDER \<subseteq> dom (levels sp)"
  shows "\<exists>resp s'. submit_answer parse (Some data) s = (JsonOk resp, s')
     \<and> map_option attempts (level_state s' (q_shape q) (q_level q)) = Some (attempts ld + 1)
     \<and> map_option correct (level_state s' (q_shape q) (q_level q))
         = Some (correct ld + (if is_correct ua (correct_answer q) then 1 else 0))
     \<and> (r_level_up resp \<noteq> None \<longleftrightarrow>
           is_correct ua (correct_answer q) \<and> passes s' (q_shape q) (q_level q))
     \<and> (r_level_up resp \<noteq> None \<longrightarrow> level_completed s' (q_shape q) (current_level sp))
     \<and> (r_level_up resp = None \<longrightarrow>
           map_option current_level (shape_state s' (q_shape q)) = Some (current_level sp)
           \<and> map_option mastered (shape_state s' (q_shape q)) = Some (mastered sp)
           \<and> (\<forall>l. map_option completed (level_state s' (q_shape q) l)
                    = map_option completed (levels sp l))
           \<and> (\<forall>l. map_option unlocked (level_state s' (q_shape q) l)
                    = map_option unlocked (levels sp l)))"
proof -
  let ?ok = "is_correct ua (correct_answer q)"
  let ?q1 = "q\<lparr>user_answer := Some ua\<rparr>"
  from submit_answer_run [OF assms(2-8)]
  obtain p1 sp1 ld1 st cat where
    sh: "shapes p1 (q_shape q) = Some sp1"
    and lv: "levels sp1 (q_level q) = Some ld1"
    and att: "attempts ld1 = attempts ld + 1"
    and cor: "correct ld1 = correct ld + (if ?ok then 1 else 0)"
    and flags: "unlocked ld1 = unlocked ld" "completed ld1 = completed ld"
      "current_level sp1 = current_level sp" "mastered sp1 = mastered sp"
    and others: "\<forall>l. l \<noteq> q_level q \<longrightarrow> levels sp1 l = levels sp l"
    and st: "accuracy st = (if attempts ld1 > 0
                        then real_of_int (correct ld1) / real_of_int (attempts ld1) else 0)"
      "can_advance st \<longleftrightarrow>
            attempts ld1 \<ge> questions_required cfg \<and> accuracy st \<ge> pass_threshold cfg"
    and run: "submit_answer_try parse (Some data) s =
          (if ?ok \<and> can_advance st then
             (case advance_level (q_shape q)
                     (s\<lparr>current_question := Some ?q1, progress := Some p1\<rparr>) of
                Inl e \<Rightarrow> Inl e
              | Inr (adv, s4) \<Rightarrow>
                 Inr (JsonOk \<lparr>r_is_correct = True,
                              r_is_close = is_close ua (correct_answer q),
                              r_ai_category = (if shape_mastered adv then ''level_complete''
                                               else ''level_up''),
                              r_level_status = st, r_level_up = Some adv,
                              r_total_attempts = total_attempts p1,
                              r_total_correct = correct_answers p1\<rparr>, s4))
           else
             Inr (JsonOk \<lparr>r_is_correct = ?ok,
                          r_is_close = is_close ua (correct_answer q),
                          r_ai_category = cat,
                          r_level_status = st, r_level_up = None,
                          r_total_attempts = total_attempts p1,
                          r_total_correct = correct_answers p1\<rparr>,
                  s\<lparr>current_question := Some ?q1, progress := Some p1\<rparr>))"
    by blast
  let ?s2 = "s\<lparr>current_question := Some ?q1, progress := Some p1\<rparr>"
  have req: "questions_required cfg = 5" using LEVELS_cases [OF assms(8)] by simp
  have adv_iff: "can_advance st \<longleftrightarrow>
      attempts ld1 \<ge> questions_required cfg
      \<and> real_of_int (correct ld1) / real_of_int (attempts ld1) \<ge> pass_threshold cfg"
    using st req by auto
  have flags_l: "map_option completed (levels sp1 l) = map_option completed (levels sp l)"
    "map_option unlocked (levels sp1 l) = map_option unlocked (levels sp l)" for l
    using others lv flags assms(7) by (cases "l = q_level q"; simp)+
  show ?thesis
  proof (cases "?ok \<and> can_advance st")
    case False
    let ?resp = "\<lparr>r_is_correct = ?ok, r_is_close = is_close ua (correct_answer q),
                  r_ai_category = cat, r_level_status = st, r_level_up = None,
                  r_total_attempts = total_attempts p1,
                  r_total_correct = correct_answers p1\<rparr>"
    have sub: "submit_answer parse (Some data) s = (JsonOk ?resp, ?s2)"
      using run False submit_answer_of_try [OF assms(1)] by simp
    have ps: "passes ?s2 (q_shape q) (q_level q) \<longleftrightarrow> can_advance st"
      using sh lv adv_iff assms(8) by (simp add: passes_def level_state_def shape_state_def)
    show ?thesis
      apply (intro exI [of _ ?resp] exI [of _ ?s2])
      using sub False ps sh lv att cor flags flags_l
      by (simp add: level_state_def shape_state_def)
  next
    case True
    have wf1: "current_level sp1 \<in> set LEVEL_ORDER" using flags(3) assms(9) by simp
    have wf2: "set LEVEL_ORDER \<subseteq> dom (levels sp1)"
    proof
      fix l assume "l \<in> set LEVEL_ORDER"
      then have "l \<in> dom (levels sp)" using assms(10) by blast
      then show "l \<in> dom (levels sp1)" using others lv by (cases "l = q_level q") auto
    qed
    have ps2: "progress ?s2 = Some p1" by simp
    from advance_level_run [OF ps2 sh wf1 wf2]
    obtain r p' sp' where
      adv: "advance_level (q_shape q) ?s2 = Inr (r, ?s2\<lparr>progress := Some p'\<rparr>)"
      and sh': "shapes p' (q_shape q) = Some sp'"
      and compl: "map_option completed (levels sp' (current_level sp1)) = Some True"
      and same: "\<forall>l. map_option attempts (levels sp' l) = map_option attempts (levels sp1 l)"
        "\<forall>l. map_option correct (levels sp' l) = map_option correct (levels sp1 l)"
      by blast
    let ?s4 = "?s2\<lparr>progress := Some p'\<rparr>"
    let ?resp = "\<lparr>r_is_correct = True, r_is_close = is_close ua (correct_answer q),
                  r_ai_category = (if shape_mastered r then ''level_complete'' else ''level_up''),
                  r_level_status = st, r_level_up = Some r,
                  r_total_attempts = total_attempts p1,
                  r_total_correct = correct_answers p1\<rparr>"
    have sub: "submit_answer parse (Some data) s = (JsonOk ?resp, ?s4)"
      using run True adv submit_answer_of_try [OF assms(1)] by simp
    have a1: "map_option attempts (levels sp' (q_level q)) = Some (attempts ld1)"
      using same(1) lv by simp
    have c1: "map_option correct (levels sp' (q_level q)) = Some (correct ld1)"
      using same(2) lv by simp
    from a1 obtain ld' where lv': "levels sp' (q_level q) = Some ld'"
      by (cases "levels sp' (q_level q)") auto
    have cnt': "attempts ld' = attempts ld1" "correct ld' = correct ld1"
      using a1 c1 lv' by simp_all
    have ps: "passes ?s4 (q_shape q) (q_level q)"
      using sh' lv' cnt' adv_iff True assms(8)
      by (simp add: passes_def level_state_def shape_state_def)
    have comp: "level_completed ?s4 (q_shape q) (current_level sp)"
      using compl sh' flags(3) by (simp add: level_completed_def level_state_def shape_state_def)
    show ?thesis
      apply (intro exI [of _ ?resp] exI [of _ ?s4])
      using sub True ps comp sh' lv' cnt' att cor
      by (simp add: level_state_def shape_state_def)
  qed
qed

theorem level_advances_iff_witness:
  "student_id example_session \<noteq> None
   \<and> subscript (JObj [(''user_answer'', JNum 16)]) ''user_answer'' = Inr (JNum 16)
   \<and> py_float Map.empty (JNum 16) = Inr 16
   \<and> current_question example_session = Some example_question
   \<and> progress example_session = Some example_progress
   \<and> shapes example_progress (q_shape example_question) = Some example_square
   \<and> levels example_square (q_level example_question) = Some four_right
   \<and> LEVELS (q_level example_question) = Some \<lparr>questions_required = 5, pass_threshold = 0.6\<rparr>
   \<and> current_level example_square \<in> set LEVEL_ORDER
   \<and> set LEVEL_ORDER \<subseteq> dom (levels example_square)
   \<and> (\<exists>resp s'. submit_answer Map.empty right_body example_session = (JsonOk resp, s')
         \<and> r_level_up resp \<noteq> None
         \<and> passes s' ''square'' ''beginner''
         \<and> level_completed s' ''square'' ''beginner'')"
proof -
  have ok: "is_correct 16 (correct_answer example_question)"
    by (simp add: is_correct_def answer_error_def example_question_def)
  have names: "q_shape example_question = ''square''" "q_level example_question = ''beginner''"
    by (simp_all add: example_question_def)
  have cur: "current_level example_square = ''beginner''"
    by (simp add: example_square_def create_shape_progress_def)
  from level_advances_iff [OF example_session_facts(1) body_facts(1) [of 16]
      body_facts(2) [where parse = Map.empty and x = 16] example_session_facts(2-8)]
  obtain resp s' where
    sub: "submit_answer Map.empty (Some (JObj [(''user_answer'', JNum 16)])) example_session
            = (JsonOk resp, s')"
    and cnt: "map_option attempts (level_state s' (q_shape example_question) (q_level example_question))
                = Some (attempts four_right + 1)"
      "map_option correct (level_state s' (q_shape example_question) (q_level example_question))
         = Some (correct four_right + (if is_correct 16 (correct_answer example_question) then 1 else 0))"
    and iff: "r_level_up resp \<noteq> None \<longleftrightarrow>
           is_correct 16 (correct_answer example_question)
           \<and> passes s' (q_shape example_question) (q_level example_question)"
    and comp: "r_level_up resp \<noteq> None \<longrightarrow>
           level_completed s' (q_shape example_question) (current_level example_square)"
    by blast
  from cnt obtain ld' where ld': "level_state s' ''square'' ''beginner'' = Some ld'"
    "attempts ld' = 5" "correct ld' = 5"
    using ok names by (auto simp: four_right_def)
  have ps: "passes s' ''square'' ''beginner''"
    using ld' by (simp add: passes_def LEVELS_def)
  have up: "r_level_up resp \<noteq> None" using iff ok ps names by simp
  have "submit_answer Map.empty right_body example_session = (JsonOk resp, s')
         \<and> r_level_up resp \<noteq> None
         \<and> passes s' ''square'' ''beginner''
         \<and> level_completed s' ''square'' ''beginner''"
    using sub up ps comp names cur by (simp add: right_body_def)
  then show ?thesis
    using example_session_facts body_facts(1) [of 16]
      body_facts(2) [where parse = Map.empty and x = 16] by blast
qed

lemma dom_from_attempts:
  assumes "\<forall>l. map_option attempts (levels sp' l) = map_option attempts (levels sp l)"
  shows "dom (levels sp') = dom (levels sp)"
proof -
  have "levels sp' l = None \<longleftrightarrow> levels sp l = None" for l
    using assms [rule_format, of l] by (cases "levels sp' l"; cases "levels sp l") simp_all
  then show ?thesis by (auto simp: dom_def)
qed

lemma submit_answer_step:
  assumes "student_id s \<noteq> None"
    and "subscript data ''user_answer'' = Inr v" and "py_float parse v = Inr ua"
    and "current_question s = Some q"
    and "progress s = Some p" and "shapes p (q_shape q) = Some sp"
    and "levels sp (q_level q) = Some ld" and "LEVELS (q_level q) = Some cfg"
    and "current_level sp \<in> set LEVEL_ORDER" and "set LEVEL_ORDER \<subseteq> dom (levels sp)"
  shows "\<exists>resp s' p' sp' ld'. submit_answer parse (Some data) s = (JsonOk resp, s')
     \<and> student_id s' = student_id s
     \<and> current_question s' = Some (q\<lparr>user_answer := Some ua\<rparr>)
     \<and> progress s' = Some p' \<and> shapes p' (q_shape q) = Some sp'
     \<and> levels sp' (q_level q) = Some ld'
     \<and> attempts ld' = attempts ld + 1
     \<and> correct ld' = correct ld + (if is_correct ua (correct_answer q) then 1 else 0)
     \<and> total_attempts p' = total_attempts p + 1
     \<and> current_level sp' \<in> set LEVEL_ORDER \<and> set LEVEL_ORDER \<subseteq> dom (levels sp')"
proof -
  let ?ok = "is_correct ua (correct_answer q)"
  let ?q1 = "q\<lparr>user_answer := Some ua\<rparr>"
  from submit_answer_run [OF assms(2-8)]
  obtain p1 sp1 ld1 st cat where
    sh: "shapes p1 (q_shape q) = Some sp1"
    and lv: "levels sp1 (q_level q) = Some ld1"
    and att: "attempts ld1 = attempts ld + 1"
    and cor: "correct ld1 = correct ld + (if ?ok then 1 else 0)"
    and cur1: "current_level sp1 = current_level sp"
    and others: "\<forall>l. l \<noteq> q_level q \<longrightarrow> levels sp1 l = levels sp l"
    and tot: "total_attempts p1 = total_attempts p + 1"
    and run: "submit_answer_try parse (Some data) s =
          (if ?ok \<and> can_advance st then
             (case advance_level (q_shape q)
                     (s\<lparr>current_question := Some ?q1, progress := Some p1\<rparr>) of
                Inl e \<Rightarrow> Inl e
              | Inr (adv, s4) \<Rightarrow>
                 Inr (JsonOk \<lparr>r_is_correct = True,
                              r_is_close = is_close ua (correct_answer q),
                              r_ai_category = (if shape_mastered adv then ''level_complete''
                                               else ''level_up''),
                              r_level_status = st, r_level_up = Some adv,
                              r_total_attempts = total_attempts p1,
                              r_total_correct = correct_answers p1\<rparr>, s4))
           else
             Inr (JsonOk \<lparr>r_is_correct = ?ok,
                          r_is_close = is_close ua (correct_answer q),
                          r_ai_category = cat,
                          r_level_status = st, r_level_up = None,
                          r_total_attempts = total_attempts p1,
                          r_total_correct = correct_answers p1\<rparr>,
                  s\<lparr>current_question := Some ?q1, progress := Some p1\<rparr>))"
    by blast
  let ?s2 = "s\<lparr>current_question := Some ?q1, progress := Some p1\<rparr>"
  have wf1: "current_level sp1 \<in> set LEVEL_ORDER" using cur1 assms(9) by simp
  have wf2: "set LEVEL_ORDER \<subseteq> dom (levels sp1)"
  proof
    fix l assume "l \<in> set LEVEL_ORDER"
    then have "l \<in> dom (levels sp)" using assms(10) by blast
    then show "l \<in> dom (levels sp1)" using others lv by (cases "l = q_level q") auto
  qed
  show ?thesis
  proof (cases "?ok \<and> can_advance st")
    case False
    let ?resp = "\<lparr>r_is_correct = ?ok, r_is_close = is_close ua (correct_answer q),
                  r_ai_category = cat, r_level_status = st, r_level_up = None,
                  r_total_attempts = total_attempts p1,
                  r_total_correct = correct_answers p1\<rparr>"
    have sub: "submit_answer parse (Some data) s = (JsonOk ?resp, ?s2)"
      using run False submit_answer_of_try [OF assms(1)] by simp
    show ?thesis
      apply (intro exI [of _ ?resp] exI [of _ ?s2] exI [of _ p1] exI [of _ sp1] exI [of _ ld1])
      using sub sh lv att cor tot wf1 wf2 by simp
  next
    case True
    have ps2: "progress ?s2 = Some p1" by simp
    from advance_level_run [OF ps2 sh wf1 wf2]
    obtain r p' sp' where
      adv: "advance_level (q_shape q) ?s2 = Inr (r, ?s2\<lparr>progress := Some p'\<rparr>)"
      and sh': "shapes p' (q_shape q) = Some sp'"
      and nxt: "current_level sp1 = ''beginner'' \<longrightarrow> current_level sp' = ''intermediate''"
        "current_level sp1 = ''intermediate'' \<longrightarrow> current_level sp' = ''expert''"
      and top: "current_level sp1 = ''expert'' \<longrightarrow>
                 mastered sp' \<and> current_level sp' = ''expert''
                 \<and> map_option completed (levels sp' ''expert'') = Some True
                 \<and> (\<forall>l. map_option unlocked (levels sp' l) = map_option unlocked (levels sp1 l))
                 \<and> \<not> advanced r \<and> new_level r = None \<and> shape_mastered r"
      and same: "\<forall>l. map_option attempts (levels sp' l) = map_option attempts (levels sp1 l)"
        "\<forall>l. map_option correct (levels sp' l) = map_option correct (levels sp1 l)"
      and tot': "total_attempts p' = total_attempts p1"
      by blast
    let ?s4 = "?s2\<lparr>progress := Some p'\<rparr>"
    let ?resp = "\<lparr>r_is_correct = True, r_is_close = is_close ua (correct_answer q),
                  r_ai_category = (if shape_mastered r then ''level_complete'' else ''level_up''),
                  r_level_status = st, r_level_up = Some r,
                  r_total_attempts = total_attempts p1,
                  r_total_correct = correct_answers p1\<rparr>"
    have sub: "submit_answer parse (Some data) s = (JsonOk ?resp, ?s4)"
      using run True adv submit_answer_of_try [OF assms(1)] by simp
    have a1: "map_option attempts (levels sp' (q_level q)) = Some (attempts ld1)"
      using same(1) lv by simp
    have c1: "map_option correct (levels sp' (q_level q)) = Some (correct ld1)"
      using same(2) lv by simp
    from a1 obtain ld' where lv': "levels sp' (q_level q) = Some ld'"
      by (cases "levels sp' (q_level q)") auto
    have cnt': "attempts ld' = attempts ld1" "correct ld' = correct ld1"
      using a1 c1 lv' by simp_all
    have wf1': "current_level sp' \<in> set LEVEL_ORDER"
      using wf1 nxt top by (auto simp: LEVEL_ORDER_def)
    have wf2': "set LEVEL_ORDER \<subseteq> dom (levels sp')"
      using wf2 dom_from_attempts [OF same(1)] by simp
    show ?thesis
      apply (intro exI [of _ ?resp] exI [of _ ?s4] exI [of _ p'] exI [of _ sp'] exI [of _ ld'])
      using sub sh' lv' cnt' att cor tot tot' wf1' wf2' by simp
  qed
qed

lemma submit_answer_no_question:
  assumes "student_id s \<noteq> None"
    and "subscript data ''user_answer'' = Inr v" and "py_float parse v = Inr ua"
    and "current_question s = None"
  shows "submit_answer parse (Some data) s = (JsonError 400, s)"
  using assms by (auto simp: submit_answer_def submit_answer_try_def)

text \<open>
  Claim C3, amended. Answering does not clear the pending question: a processed submission
  returns status 200, records the attempt and leaves the same question (with the submitted
  answer noted on it) pending, so a second submission without a new question is processed in
  the same way and increments the counters again. A submission with a numeric answer is
  rejected with status 400 as having no active question only when no question is pending.
\<close>

theorem question_stays_pending:
  assumes "student_id s \<noteq> None"
    and "subscript data ''user_answer'' = Inr v" and "py_float parse v = Inr ua"
  shows "(current_question s = None \<longrightarrow> submit_answer parse (Some data) s = (JsonError 400, s))
    \<and> (current_question s = Some q \<and> progress s = Some p \<and> shapes p (q_shape q) = Some sp
        \<and> levels sp (q_level q) = Some ld \<and> LEVELS (q_level q) = Some cfg
        \<and> current_level sp \<in> set LEVEL_ORDER \<and> set LEVEL_ORDER \<subseteq> dom (levels sp)
       \<longrightarrow> (\<exists>resp s' resp2 s''.
              submit_answer parse (Some data) s = (JsonOk resp, s')
              \<and> current_question s' = Some (q\<lparr>user_answer := Some ua\<rparr>)
              \<and> map_option attempts (level_state s' (q_shape q) (q_level q))
                  = Some (attempts ld + 1)
              \<and> map_option total_attempts (progress s') = Some (total_attempts p + 1)
              \<and> submit_answer parse (Some data) s' = (JsonOk resp2, s'')
              \<and> current_question s'' = Some (q\<lparr>user_answer := Some ua\<rparr>)
              \<and> map_option attempts (level_state s'' (q_shape q) (q_level q))
                  = Some (attempts ld + 2)
              \<and> map_option total_attempts (progress s'') = Some (total_attempts p + 2)))"
proof (intro conjI impI)
  assume "current_question s = None"
  then show "submit_answer parse (Some data) s = (JsonError 400, s)"
    using submit_answer_no_question [OF assms] by simp
next
  assume h: "current_question s = Some q \<and> progress s = Some p \<and> shapes p (q_shape q) = Some sp
        \<and> levels sp (q_level q) = Some ld \<and> LEVELS (q_level q) = Some cfg
        \<and> current_level sp \<in> set LEVEL_ORDER \<and> set LEVEL_ORDER \<subseteq> dom (levels sp)"
  let ?q1 = "q\<lparr>user_answer := Some ua\<rparr>"
  from h have hs: "current_question s = Some q" "progress s = Some p"
    "shapes p (q_shape q) = Some sp" "levels sp (q_level q) = Some ld"
    "LEVELS (q_level q) = Some cfg" "current_level sp \<in> set LEVEL_ORDER"
    "set LEVEL_ORDER \<subseteq> dom (levels sp)" by simp_all
  from submit_answer_step [OF assms hs]
  obtain resp s' p' sp' ld' where
    sub1: "submit_answer parse (Some data) s = (JsonOk resp, s')"
    and sid1: "student_id s' = student_id s"
    and q1: "current_question s' = Some ?q1"
    and p1: "progress s' = Some p'" "shapes p' (q_shape q) = Some sp'"
      "levels sp' (q_level q) = Some ld'"
    and cnt1: "attempts ld' = attempts ld + 1" "total_attempts p' = total_attempts p + 1"
    and wf1: "current_level sp' \<in> set LEVEL_ORDER" "set LEVEL_ORDER \<subseteq> dom (levels sp')"
    by blast
  have sid1': "student_id s' \<noteq> None" using sid1 assms(1) by simp
  have p1': "shapes p' (q_shape ?q1) = Some sp'" "levels sp' (q_level ?q1) = Some ld'"
    "LEVELS (q_level ?q1) = Some cfg"
    using p1 hs(5) by simp_all
  from submit_answer_step [OF sid1' assms(2,3) q1 p1(1) p1' wf1]
  obtain resp2 s'' p'' sp'' ld'' where
    sub2: "submit_answer parse (Some data) s' = (JsonOk resp2, s'')"
    and q2: "current_question s'' = Some (?q1\<lparr>user_answer := Some ua\<rparr>)"
    and p2: "progress s'' = Some p''" "shapes p'' (q_shape ?q1) = Some sp''"
      "levels sp'' (q_level ?q1) = Some ld''"
    and cnt2: "attempts ld'' = attempts ld' + 1" "total_attempts p'' = total_attempts p' + 1"
    by blast
  show "\<exists>resp s' resp2 s''.
              submit_answer parse (Some data) s = (JsonOk resp, s')
              \<and> current_question s' = Some (q\<lparr>user_answer := Some ua\<rparr>)
              \<and> map_option attempts (level_state s' (q_shape q) (q_level q))
                  = Some (attempts ld + 1)
              \<and> map_option total_attempts (progress s') = Some (total_attempts p + 1)
              \<and> submit_answer parse (Some data) s' = (JsonOk resp2, s'')
              \<and> current_question s'' = Some (q\<lparr>user_answer := Some ua\<rparr>)
              \<and> map_option attempts (level_state s'' (q_shape q) (q_level q))
                  = Some (attempts ld + 2)
              \<and> map_option total_attempts (progress s'') = Some (total_attempts p + 2)"
    apply (rule exI [of _ resp], rule exI [of _ s'], rule exI [of _ resp2], rule exI [of _ s''])
    using sub1 q1 p1 cnt1 sub2 q2 p2 cnt2
    by (simp add: level_state_def shape_state_def)
qed

text \<open>
  Claim C3 as stated does not hold. In the example state a second submission for the same
  question, with no new question generated in between, is answered with status 200 again
  and raises the beginner attempts of the square from 5 to 6.
\<close>

theorem resubmission_counted_again:
  "status_code (fst (submit_answer Map.empty wrong_body example_session)) = 200
   \<and> map_option attempts
        (level_state (snd (submit_answer Map.empty wrong_body example_session))
           ''square'' ''beginner'') = Some 5
   \<and> status_code (fst (submit_answer Map.empty wrong_body
                          (snd (submit_answer Map.empty wrong_body example_session)))) = 200
   \<and> map_option attempts
        (level_state (snd (submit_answer Map.empty wrong_body
                             (snd (submit_answer Map.empty wrong_body example_session))))
           ''square'' ''beginner'') = Some 6"
proof -
  let ?q1 = "example_question\<lparr>user_answer := Some 100\<rparr>"
  note b1 = body_facts(1) [of 100]
  note b2 = body_facts(2) [where parse = Map.empty and x = 100]
  have names: "q_shape example_question = ''square''" "q_level example_question = ''beginner''"
    by (simp_all add: example_question_def)
  from submit_answer_step [OF example_session_facts(1) b1 b2 example_session_facts(2-8)]
  obtain resp s' p' sp' ld' where
    sub1: "submit_answer Map.empty (Some (JObj [(''user_answer'', JNum 100)])) example_session
             = (JsonOk resp, s')"
    and sid1: "student_id s' = student_id example_session"
    and q1: "current_question s' = Some ?q1"
    and p1: "progress s' = Some p'" "shapes p' (q_shape example_question) = Some sp'"
      "levels sp' (q_level example_question) = Some ld'"
    and cnt1: "attempts ld' = attempts four_right + 1"
    and wf1: "current_level sp' \<in> set LEVEL_ORDER" "set LEVEL_ORDER \<subseteq> dom (levels sp')"
    by blast
  have sid1': "student_id s' \<noteq> None" using sid1 example_session_facts(1) by simp
  have p1': "shapes p' (q_shape ?q1) = Some sp'" "levels sp' (q_level ?q1) = Some ld'"
    "LEVELS (q_level ?q1) = Some \<lparr>questions_required = 5, pass_threshold = 0.6\<rparr>"
    using p1 example_session_facts(6) by simp_all
  from submit_answer_step [OF sid1' b1 b2 q1 p1(1) p1' wf1]
  obtain resp2 s'' p'' sp'' ld'' where
    sub2: "submit_answer Map.empty (Some (JObj [(''user_answer'', JNum 100)])) s'
             = (JsonOk resp2, s'')"
    and p2: "progress s'' = Some p''" "shapes p'' (q_shape ?q1) = Some sp''"
      "levels sp'' (q_level ?q1) = Some ld''"
    and cnt2: "attempts ld'' = attempts ld' + 1"
    by blast
  have a1: "map_option attempts (level_state s' ''square'' ''beginner'') = Some 5"
    using p1 cnt1 names by (simp add: level_state_def shape_state_def four_right_def)
  have a2: "map_option attempts (level_state s'' ''square'' ''beginner'') = Some 6"
    using p2 cnt2 cnt1 names by (simp add: level_state_def shape_state_def four_right_def)
  show ?thesis
    using sub1 sub2 a1 a2 by (simp add: wrong_body_def)
qed

theorem question_stays_pending_witness:
  "student_id example_session \<noteq> None
   \<and> student_id (example_session\<lparr>current_question := None\<rparr>) \<noteq> None
   \<and> subscript (JObj [(''user_answer'', JNum 16)]) ''user_answer'' = Inr (JNum 16)
   \<and> py_float Map.empty (JNum 16) = Inr 16
   \<and> current_question (example_session\<lparr>current_question := None\<rparr>) = None
   \<and> current_question example_session = Some example_question
   \<and> progress example_session = Some example_progress
   \<and> shapes example_progress (q_shape example_question) = Some example_square
   \<and> levels example_square (q_level example_question) = Some four_right
   \<and> LEVELS (q_level example_question) = Some \<lparr>questions_required = 5, pass_threshold = 0.6\<rparr>
   \<and> current_level example_square \<in> set LEVEL_ORDER
   \<and> set LEVEL_ORDER \<subseteq> dom (levels example_square)
   \<and> submit_answer Map.empty right_body (example_session\<lparr>current_question := None\<rparr>)
       = (JsonError 400, example_session\<lparr>current_question := None\<rparr>)
   \<and> (\<exists>resp s' resp2 s''.
         submit_answer Map.empty right_body example_session = (JsonOk resp, s')
         \<and> map_option attempts (level_state s' ''square'' ''beginner'') = Some 5
         \<and> submit_answer Map.empty right_body s' = (JsonOk resp2, s'')
         \<and> map_option attempts (level_state s'' ''square'' ''beginner'') = Some 6)"
proof -
  note b1 = body_facts(1) [of 16]
  note b2 = body_facts(2) [where parse = Map.empty and x = 16]
  have sid0: "student_id (example_session\<lparr>current_question := None\<rparr>) \<noteq> None"
    using example_session_facts(1) by simp
  have none: "current_question (example_session\<lparr>current_question := None\<rparr>) = None" by simp
  have names: "q_shape example_question = ''square''" "q_level example_question = ''beginner''"
    by (simp_all add: example_question_def)
  have four: "attempts four_right = 4" by (simp add: four_right_def)
  have part1: "submit_answer Map.empty right_body (example_session\<lparr>current_question := None\<rparr>)
       = (JsonError 400, example_session\<lparr>current_question := None\<rparr>)"
    using question_stays_pending [OF sid0 b1 b2] none by (simp add: right_body_def)
  have part2: "\<exists>resp s' resp2 s''.
         submit_answer Map.empty right_body example_session = (JsonOk resp, s')
         \<and> map_option attempts (level_state s' ''square'' ''beginner'') = Some 5
         \<and> submit_answer Map.empty right_body s' = (JsonOk resp2, s'')
         \<and> map_option attempts (level_state s'' ''square'' ''beginner'') = Some 6"
    using question_stays_pending [OF example_session_facts(1) b1 b2,
        of example_question example_progress example_square four_right
          "\<lparr>questions_required = 5, pass_threshold = 0.6\<rparr>"]
      example_session_facts(2-8) names four
    by (simp add: right_body_def) blast
  show ?thesis
    using example_session_facts sid0 none b1 b2 part1 part2 by blast
qed

text \<open>
  Claim C2 at its failing inputs. A body without the key \<^verbatim>\<open>user_answer\<close> raises
  \<^verbatim>\<open>KeyError\<close> and a body whose answer is \<^verbatim>\<open>null\<close> raises \<^verbatim>\<open>TypeError\<close>; neither is a
  \<^verbatim>\<open>ValueError\<close>, so both are answered with status 500, whereas an answer that is a
  non-numeric string is answered with status 400.
\<close>

theorem missing_answer_status_500:
  "status_code (fst (submit_answer Map.empty empty_body example_session)) = 500
   \<and> status_code (fst (submit_answer Map.empty null_body example_session)) = 500
   \<and> status_code (fst (submit_answer Map.empty text_body example_session)) = 400"
  by (simp add: submit_answer_def submit_answer_try_def subscript_def lookup_def py_float_def
      empty_body_def null_body_def text_body_def example_session_def)

section \<open>The invariant of the counters\<close>

lemma create_shape_progress_counts:
  "levels create_shape_progress level = Some ld \<Longrightarrow> correct ld \<le> attempts ld"
  by (auto simp: create_shape_progress_def split: if_splits)

lemma counts_ok_initial: "counts_ok initial_progress"
  unfolding counts_ok_def
proof (intro allI impI)
  fix shape sp level ld
  assume "shapes initial_progress shape = Some sp" and l: "levels sp level = Some ld"
  then have "sp = create_shape_progress"
    by (auto simp: initial_progress_def split: if_splits)
  then show "correct ld \<le> attempts ld" using l create_shape_progress_counts by simp
qed

lemma session_ok_init: "session_ok s \<Longrightarrow> session_ok (init_progress s)"
  by (cases "progress s") (simp_all add: session_ok_def init_progress_def counts_ok_initial)

lemma init_progress_idem: "init_progress (init_progress s) = init_progress s"
  by (cases "progress s") (simp_all add: init_progress_def)

lemma init_progress_obtain: "\<exists>p. progress (init_progress s) = Some p"
  by (cases "progress s") (simp_all add: init_progress_def)

lemma update_progress_init:
  "update_progress shape level ok q (init_progress s) = update_progress shape level ok q s"
  by (simp add: update_progress_def init_progress_idem)

lemma update_progress_Inr_lookup:
  assumes "update_progress shape level ok q s = Inr (p', s')"
    and "progress (init_progress s) = Some p"
  shows "\<exists>sp ld. shapes p shape = Some sp \<and> levels sp level = Some ld"
proof (cases "shapes p shape")
  case None
  then show ?thesis
    using assms by (cases ok) (simp_all add: update_progress_def get_level_data_def lookup_def)
next
  case (Some sp)
  show ?thesis
  proof (cases "levels sp level")
    case None
    then show ?thesis
      using assms Some
      by (cases ok) (simp_all add: update_progress_def get_level_data_def lookup_def)
  next
    case (Some ld)
    then show ?thesis using \<open>shapes p shape = Some sp\<close> by simp
  qed
qed

lemma update_progress_session_ok:
  assumes "session_ok s" and "update_progress shape level ok q s = Inr (p', s')"
  shows "counts_ok p' \<and> session_ok s'"
proof -
  let ?s0 = "init_progress s"
  obtain p where p: "progress ?s0 = Some p" using init_progress_obtain by blast
  have okp: "counts_ok p" using session_ok_init [OF assms(1)] p by (simp add: session_ok_def)
  obtain sp ld where sp: "shapes p shape = Some sp" and ld: "levels sp level = Some ld"
    using update_progress_Inr_lookup [OF assms(2) p] by blast
  from update_progress_props [OF p sp ld, of ok q]
  obtain p1 sp1 ld1 where
    up: "update_progress shape level ok q ?s0 = Inr (p1, ?s0\<lparr>progress := Some p1\<rparr>)"
    and sh: "shapes p1 shape = Some sp1" and lv: "levels sp1 level = Some ld1"
    and cnt: "attempts ld1 = attempts ld + 1" "correct ld1 = correct ld + (if ok then 1 else 0)"
    and others: "\<forall>l. l \<noteq> level \<longrightarrow> levels sp1 l = levels sp l"
      "\<forall>sh. sh \<noteq> shape \<longrightarrow> shapes p1 sh = shapes p sh"
    by blast
  have eq: "p' = p1" "s' = ?s0\<lparr>progress := Some p1\<rparr>"
    using up assms(2) by (simp_all add: update_progress_init)
  have "counts_ok p1"
    unfolding counts_ok_def
  proof (intro allI impI)
    fix sh' sp' l' ld'
    assume a: "shapes p1 sh' = Some sp'" and b: "levels sp' l' = Some ld'"
    show "correct ld' \<le> attempts ld'"
    proof (cases "sh' = shape")
      case False
      then have "shapes p sh' = Some sp'" using a others(2) by simp
      then show ?thesis using okp b by (auto simp: counts_ok_def)
    next
      case True
      then have sp': "sp' = sp1" using a sh by simp
      show ?thesis
      proof (cases "l' = level")
        case False
        then have "levels sp l' = Some ld'" using b sp' others(1) by simp
        then show ?thesis using okp sp by (auto simp: counts_ok_def)
      next
        case True
        then have "ld' = ld1" using b sp' lv by simp
        moreover have "correct ld \<le> attempts ld" using okp sp ld by (auto simp: counts_ok_def)
        ultimately show ?thesis using cnt by simp
      qed
    qed
  qed
  then show ?thesis using eq by (simp add: session_ok_def)
qed

lemma check_level_progress_session:
  "check_level_progress shape level s = Inr (st, s') \<Longrightarrow> s' = init_progress s"
  by (auto simp: check_level_progress_def Let_def split: option.splits sum.splits)

lemma counts_ok_flags:
  assumes "counts_ok p" and "shapes p shape = Some sp"
    and "\<forall>l ld'. levels sp' l = Some ld' \<longrightarrow>
           (\<exists>ld. levels sp l = Some ld \<and> correct ld' = correct ld \<and> attempts ld' = attempts ld)"
  shows "counts_ok (p\<lparr>shapes := (shapes p)(shape \<mapsto> sp')\<rparr>)"
  unfolding counts_ok_def
proof (intro allI impI)
  fix sh' sp'' l' ld'
  assume a: "shapes (p\<lparr>shapes := (shapes p)(shape \<mapsto> sp')\<rparr>) sh' = Some sp''"
    and b: "levels sp'' l' = Some ld'"
  show "correct ld' \<le> attempts ld'"
  proof (cases "sh' = shape")
    case False
    then have "shapes p sh' = Some sp''" using a by simp
    then show ?thesis using assms(1) b by (auto simp: counts_ok_def)
  next
    case True
    then have "sp'' = sp'" using a by simp
    then obtain ld where "levels sp l' = Some ld" "correct ld' = correct ld"
      "attempts ld' = attempts ld" using assms(3) b by blast
    then show ?thesis using assms(1,2) by (auto simp: counts_ok_def)
  qed
qed

lemma advance_level_session_ok:
  assumes "session_ok s" and "advance_level shape s = Inr (r, s')"
  shows "session_ok s'"
proof -
  let ?s0 = "init_progress s"
  obtain p where p: "progress ?s0 = Some p" using init_progress_obtain by blast
  have okp: "counts_ok p" using session_ok_init [OF assms(1)] p by (simp add: session_ok_def)
  from assms(2) p obtain sp where sp: "shapes p shape = Some sp"
    by (cases "shapes p shape") (simp_all add: advance_level_def lookup_def)
  from assms(2) p sp obtain i where i: "list_index LEVEL_ORDER (current_level sp) = Inr i"
    by (cases "list_index LEVEL_ORDER (current_level sp)")
       (simp_all add: advance_level_def lookup_def)
  from assms(2) p sp i obtain cur where cur: "levels sp (current_level sp) = Some cur"
    by (cases "levels sp (current_level sp)") (simp_all add: advance_level_def lookup_def)
  let ?sp1 = "sp\<lparr>levels := (levels sp)(current_level sp \<mapsto> cur\<lparr>completed := True\<rparr>)\<rparr>"
  show ?thesis
  proof (cases "i < length LEVEL_ORDER - 1")
    case False
    let ?sp2 = "?sp1\<lparr>mastered := True\<rparr>"
    have s': "s' = ?s0\<lparr>progress := Some (p\<lparr>shapes := (shapes p)(shape \<mapsto> ?sp2)\<rparr>)\<rparr>"
      using assms(2) p sp i cur False by (simp add: advance_level_def lookup_def Let_def)
    have "counts_ok (p\<lparr>shapes := (shapes p)(shape \<mapsto> ?sp2)\<rparr>)"
      by (rule counts_ok_flags [OF okp sp]) (use cur in \<open>auto split: if_splits\<close>)
    then show ?thesis using s' by (simp add: session_ok_def)
  next
    case True
    let ?next = "LEVEL_ORDER ! (i + 1)"
    from assms(2) p sp i cur True obtain nxt where nxt: "levels ?sp1 ?next = Some nxt"
      by (cases "levels ?sp1 ?next") (simp_all add: advance_level_def lookup_def Let_def)
    let ?sp2 = "?sp1\<lparr>current_level := ?next,
                     levels := (levels ?sp1)(?next \<mapsto> nxt\<lparr>unlocked := True\<rparr>)\<rparr>"
    have s': "s' = ?s0\<lparr>progress := Some (p\<lparr>shapes := (shapes p)(shape \<mapsto> ?sp2)\<rparr>)\<rparr>"
      using assms(2) p sp i cur True nxt by (simp add: advance_level_def lookup_def Let_def)
    have "counts_ok (p\<lparr>shapes := (shapes p)(shape \<mapsto> ?sp2)\<rparr>)"
      by (rule counts_ok_flags [OF okp sp]) (use cur nxt in \<open>auto split: if_splits\<close>)
    then show ?thesis using s' by (simp add: session_ok_def)
  qed
qed

lemma submit_answer_try_session_ok:
  assumes "session_ok s" and "submit_answer_try parse body s = Inr (r, s')"
  shows "session_ok s'"
proof (cases "current_question s")
  case None
  then have "s' = s"
    using assms(2) by (auto simp: submit_answer_try_def split: option.splits sum.splits)
  then show ?thesis using assms(1) by simp
next
  case (Some q)
  from assms(2) obtain data v ua where b: "body = Some data"
    "subscript data ''user_answer'' = Inr v" "py_float parse v = Inr ua"
    by (auto simp: submit_answer_try_def split: option.splits sum.splits)
  let ?ok = "is_correct ua (correct_answer q)"
  let ?q1 = "q\<lparr>user_answer := Some ua\<rparr>"
  let ?s1 = "s\<lparr>current_question := Some ?q1\<rparr>"
  have ok1: "session_ok ?s1" using assms(1) by (simp add: session_ok_def)
  from assms(2) b Some obtain p s2 where
    up: "update_progress (q_shape q) (q_level q) ?ok ?q1 ?s1 = Inr (p, s2)"
    by (cases "update_progress (q_shape q) (q_level q) ?ok ?q1 ?s1")
       (auto simp: submit_answer_try_def Let_def)
  have ok2: "session_ok s2" using update_progress_session_ok [OF ok1 up] by simp
  from assms(2) b Some up obtain st s3 where
    ck: "check_level_progress (q_shape q) (q_level q) s2 = Inr (st, s3)"
    by (cases "check_level_progress (q_shape q) (q_level q) s2")
       (auto simp: submit_answer_try_def Let_def)
  have ok3: "session_ok s3"
    using check_level_progress_session [OF ck] session_ok_init [OF ok2] by simp
  show ?thesis
  proof (cases "?ok \<and> can_advance st")
    case False
    then have "s' = s3"
      using assms(2) b Some up ck
      by (auto simp: submit_answer_try_def Let_def split: if_splits)
    then show ?thesis using ok3 by simp
  next
    case True
    then obtain adv where "advance_level (q_shape q) s3 = Inr (adv, s')"
      using assms(2) b Some up ck
      by (cases "advance_level (q_shape q) s3") (auto simp: submit_answer_try_def Let_def)
    then show ?thesis using advance_level_session_ok [OF ok3] by simp
  qed
qed

lemma submit_answer_session_ok:
  assumes "session_ok s"
  shows "session_ok (snd (submit_answer parse body s))"
proof (cases "submit_answer_try parse body s")
  case (Inl e)
  then show ?thesis using assms by (cases e) (simp_all add: submit_answer_def)
next
  case (Inr rs)
  obtain r s' where rs: "rs = (r, s')" by (cases rs)
  have "session_ok s'" using submit_answer_try_session_ok [OF assms] Inr rs by simp
  then show ?thesis using Inr rs assms by (simp add: submit_answer_def)
qed

lemma reset_shape_session_ok:
  assumes "session_ok s"
  shows "session_ok (reset_shape shape_name s)"
proof (cases "student_id s = None")
  case True
  then show ?thesis using assms by (simp add: reset_shape_def)
next
  case False
  let ?s0 = "init_progress s"
  obtain p where p: "progress ?s0 = Some p" using init_progress_obtain by blast
  have okp: "counts_ok p" using session_ok_init [OF assms] p by (simp add: session_ok_def)
  show ?thesis
  proof (cases "shapes p shape_name")
    case None
    then have "reset_shape shape_name s = ?s0"
      using False p by (auto simp: reset_shape_def dom_def)
    then show ?thesis using session_ok_init [OF assms] by simp
  next
    case (Some sp)
    then have r: "reset_shape shape_name s
        = ?s0\<lparr>progress := Some (p\<lparr>shapes := (shapes p)(shape_name \<mapsto> create_shape_progress)\<rparr>)\<rparr>"
      using False p by (auto simp: reset_shape_def dom_def)
    have "counts_ok (p\<lparr>shapes := (shapes p)(shape_name \<mapsto> create_shape_progress)\<rparr>)"
      unfolding counts_ok_def
    proof (intro allI impI)
      fix sh' sp' l' ld'
      assume a: "shapes (p\<lparr>shapes := (shapes p)(shape_name \<mapsto> create_shape_progress)\<rparr>) sh'
                   = Some sp'"
        and b: "levels sp' l' = Some ld'"
      show "correct ld' \<le> attempts ld'"
      proof (cases "sh' = shape_name")
        case True
        then show ?thesis using a b create_shape_progress_counts by simp
      next
        case False
        then have "shapes p sh' = Some sp'" using a by simp
        then show ?thesis using okp b by (auto simp: counts_ok_def)
      qed
    qed
    then show ?thesis using r by (simp add: session_ok_def)
  qed
qed

lemma reset_session_ok: "session_ok (reset s) \<and> session_ok (init_progress (reset s))"
  by (simp add: reset_def session_ok_def init_progress_def counts_ok_initial)


text \<open>
  Claim C9. For every shape and level, \<open>correct \<le> attempts\<close> holds in the initial progress
  record and is preserved by every operation that changes the progress: creating the record,
  an answer submission (and the progress update inside it), level advancement, the reset of
  one shape and the reset of the whole session.
\<close>

theorem correct_le_attempts_invariant:
  "counts_ok initial_progress
   \<and> (session_ok s \<longrightarrow> session_ok (init_progress s))
   \<and> (session_ok s \<longrightarrow> session_ok (snd (submit_answer parse body s)))
   \<and> (session_ok s \<longrightarrow>
         (\<forall>p' s'. update_progress shape level ok q s = Inr (p', s') \<longrightarrow>
                    counts_ok p' \<and> session_ok s'))
   \<and> (session_ok s \<longrightarrow>
         (\<forall>r s'. advance_level shape s = Inr (r, s') \<longrightarrow> session_ok s'))
   \<and> (session_ok s \<longrightarrow> session_ok (reset_shape shape s))
   \<and> session_ok (reset s) \<and> session_ok (init_progress (reset s))"
  using counts_ok_initial session_ok_init submit_answer_session_ok update_progress_session_ok
    advance_level_session_ok reset_shape_session_ok reset_session_ok
  by blast

lemma counts_ok_example: "counts_ok example_progress"
  unfolding counts_ok_def
proof (intro allI impI)
  fix shape sp level ld
  assume a: "shapes example_progress shape = Some sp" and l: "levels sp level = Some ld"
  then consider "sp = create_shape_progress" | "sp = example_square"
    by (auto simp: example_progress_def initial_progress_def split: if_splits)
  then show "correct ld \<le> attempts ld"
  proof cases
    case 1
    then show ?thesis using l create_shape_progress_counts by simp
  next
    case 2
    then show ?thesis
      using l
      by (auto simp: example_square_def create_shape_progress_def four_right_def
          split: if_splits)
  qed
qed

theorem correct_le_attempts_invariant_witness:
  "session_ok example_session
   \<and> session_ok (snd (submit_answer Map.empty right_body example_session))
   \<and> session_ok (snd (submit_answer Map.empty wrong_body example_session))
   \<and> session_ok (reset_shape ''square'' example_session)
   \<and> (\<exists>r s'. advance_level ''square'' example_session = Inr (r, s') \<and> session_ok s')"
proof -
  have ok: "session_ok example_session"
    using counts_ok_example by (simp add: session_ok_def example_session_def)
  obtain r p' where adv: "advance_level ''square'' example_session
      = Inr (r, example_session\<lparr>progress := Some p'\<rparr>)"
    using advance_level_run [OF example_session_facts(3)
        example_session_facts(4) [simplified example_question_def question.simps]
        example_session_facts(7,8)]
    by blast
  have "session_ok (snd (submit_answer Map.empty right_body example_session))"
    using correct_le_attempts_invariant [of example_session Map.empty right_body] ok by blast
  moreover have "session_ok (snd (submit_answer Map.empty wrong_body example_session))"
    using correct_le_attempts_invariant [of example_session Map.empty wrong_body] ok by blast
  moreover have "session_ok (reset_shape ''square'' example_session)"
    using correct_le_attempts_invariant [where s = example_session and shape = "''square''"] ok
    by blast
  moreover have "session_ok (example_session\<lparr>progress := Some p'\<rparr>)"
    using correct_le_attempts_invariant [where s = example_session and shape = "''square''"]
      ok adv by blast
  ultimately show ?thesis using ok adv by blast
qed

end
